theory Spec2Isabelle
  imports Main
begin

unbundle bit_operations_syntax

section \<open>Byte strings and Python built-ins\<close>

text \<open>
  A Python \<open>bytes\<close> value is a list of 8-bit characters.  A Python \<open>str\<close> is
  represented by its UTF-8 encoding, again a list of 8-bit characters; with this
  representation \<open>s.encode('utf-8')\<close> is the identity, and strings holding lone
  surrogates (which have no UTF-8 encoding) are outside the type.  Python integers are
  unbounded, hence \<open>int\<close>; \<open>&\<close>, \<open>|\<close>, \<open><<\<close> and \<open>>>\<close> on them are the
  two's-complement operations \<open>AND\<close>, \<open>OR\<close>, \<open>push_bit\<close> and \<open>drop_bit\<close>.
  An exception is the \<open>Inl\<close> branch of a sum.
\<close>

type_synonym bytes = "char list"

datatype py_error =
  ValueError | TypeError | IndexError | KeyError | UnicodeEncodeError | UnicodeDecodeError
  | JSONDecodeError | RequestException | UnsupportedAlgorithm

text \<open>\<open>len(x)\<close>.\<close>

definition len :: "'a list \<Rightarrow> int" where
  "len xs = int (length xs)"

text \<open>\<open>bytes(result)\<close> for a list of integers: every element must be in \<open>range(256)\<close>.\<close>

definition py_bytes :: "int list \<Rightarrow> py_error + bytes" where
  "py_bytes xs =
     (if list_all (\<lambda>x. 0 \<le> x \<and> x < 256) xs then Inr (map char_of xs) else Inl ValueError)"

text \<open>\<open>str(n)\<close> for an integer: its decimal digits, most significant first, after a
  minus sign when negative.\<close>

function str_nat :: "nat \<Rightarrow> string" where
  "str_nat n =
     (if n < 10 then [char_of (48 + n)] else str_nat (n div 10) @ [char_of (48 + n mod 10)])"
  by pat_completeness auto
termination
  by (relation "measure id") auto

definition py_str :: "int \<Rightarrow> string" where
  "py_str i = (if i < 0 then CHR ''-'' # str_nat (nat (- i)) else str_nat (nat i))"

text \<open>\<open>s.encode('ascii')\<close>: fails on any character outside the 7-bit range.\<close>

definition encode_ascii :: "string \<Rightarrow> py_error + bytes" where
  "encode_ascii s =
     (if list_all (\<lambda>c. (of_char c :: nat) < 128) s then Inr s else Inl UnicodeEncodeError)"

text \<open>\<open>data[pos]\<close> on a byte string: a negative index counts from the end.\<close>

definition getitem :: "bytes \<Rightarrow> int \<Rightarrow> py_error + int" where
  "getitem data pos =
     (let j = (if pos < 0 then len data + pos else pos)
      in if 0 \<le> j \<and> j < len data then Inr (of_char (data ! nat j)) else Inl IndexError)"

section \<open>HIP-820 message framing\<close>

text \<open>The literal \<open>b'\x19Hedera Signed Message:\n'\<close>.\<close>

definition hip820_prefix :: bytes where
  "hip820_prefix = CHR 0x19 # ''Hedera Signed Message:'' @ [CHR 0x0A]"

text \<open>\<open>build_hip820\<close> (new_auth.py, order_lifecycle_3.py, ex_deposit.py: the same body;
  the \<open>try\<close> of order_lifecycle_3.py logs and re-raises).\<close>

definition build_hip820 :: "bytes \<Rightarrow> py_error + bytes" where
  "build_hip820 msg_bytes =
     (case encode_ascii (py_str (len msg_bytes)) of
        Inl e \<Rightarrow> Inl e
      | Inr length_str \<Rightarrow> Inr (hip820_prefix @ length_str @ [CHR 0x0A] @ msg_bytes))"

section \<open>Varint encoding and decoding\<close>

text \<open>
  The \<open>while value > 0x7f\<close> loop of \<open>encode_varint\<close>, on the pair of the loop
  variables \<open>value\<close> and \<open>result\<close>.
\<close>

function encode_varint_loop :: "int \<Rightarrow> int list \<Rightarrow> int \<times> int list" where
  "encode_varint_loop val result =
     (if val > 0x7f
      then encode_varint_loop (drop_bit 7 val) (result @ [(val AND 0x7f) OR 0x80])
      else (val, result))"
  by pat_completeness auto
termination
  by (relation "measure (\<lambda>(val, result). nat val)") (auto simp: drop_bit_eq_div)

definition encode_varint :: "int \<Rightarrow> py_error + bytes" where
  "encode_varint val =
     (case encode_varint_loop val [] of
        (val', result) \<Rightarrow> py_bytes (result @ [val' AND 0x7f]))"

text \<open>
  \<open>decode_varint\<close> (ex_deposit.py).  The loop runs on \<open>pos\<close>, \<open>value\<close> and
  \<open>shift\<close>; \<open>break\<close> returns from it.
\<close>

function decode_varint_loop :: "bytes \<Rightarrow> int \<Rightarrow> int \<Rightarrow> nat \<Rightarrow> py_error + (int \<times> int)" where
  "decode_varint_loop data pos val shift =
     (if pos < len data then
        (case getitem data pos of
           Inl e \<Rightarrow> Inl e
         | Inr byte \<Rightarrow>
             if byte AND 0x80 = 0
             then Inr (val OR push_bit shift (byte AND 0x7f), pos + 1)
             else decode_varint_loop data (pos + 1) (val OR push_bit shift (byte AND 0x7f))
                    (shift + 7))
      else Inr (val, pos))"
  by pat_completeness auto
termination
  by (relation "measure (\<lambda>(data, pos, val, shift). nat (len data - pos))") auto

definition decode_varint :: "bytes \<Rightarrow> int \<Rightarrow> py_error + (int \<times> int)" where
  "decode_varint data pos = decode_varint_loop data pos 0 0"

section \<open>Signature map\<close>

text \<open>\<open>build_signature_map\<close> (order_lifecycle_3.py, ex_deposit.py).\<close>

definition build_signature_map :: "bytes \<Rightarrow> bytes \<Rightarrow> py_error + bytes" where
  "build_signature_map pub_key signature =
     (case encode_varint (len pub_key) of
        Inl e \<Rightarrow> Inl e
      | Inr pub_len \<Rightarrow>
     (case encode_varint (len signature) of
        Inl e \<Rightarrow> Inl e
      | Inr sig_len \<Rightarrow>
     (let sig_pair = ([CHR 0x0A] @ pub_len @ pub_key) @ ([CHR 0x1A] @ sig_len @ signature)
      in case encode_varint (len sig_pair) of
           Inl e \<Rightarrow> Inl e
         | Inr pair_len \<Rightarrow> Inr ([CHR 0x0A] @ pair_len @ sig_pair))))"

text \<open>\<open>build_signature_map_protobuf\<close> (new_auth.py), with its \<open>key_type\<close> argument.\<close>

definition build_signature_map_protobuf :: "bytes \<Rightarrow> bytes \<Rightarrow> string \<Rightarrow> py_error + bytes" where
  "build_signature_map_protobuf public_key_bytes signature_bytes key_type =
     (case encode_varint (len public_key_bytes) of
        Inl e \<Rightarrow> Inl e
      | Inr pub_len \<Rightarrow>
     (let sig_pair = [] @ [CHR 0x0A] @ pub_len @ public_key_bytes;
          sig_pair = sig_pair @ (if key_type = ''ed25519'' then [CHR 0x1A] else [CHR 0x32])
      in case encode_varint (len signature_bytes) of
           Inl e \<Rightarrow> Inl e
         | Inr sig_len \<Rightarrow>
          (let sig_pair = sig_pair @ sig_len @ signature_bytes
           in case encode_varint (len sig_pair) of
                Inl e \<Rightarrow> Inl e
              | Inr pair_len \<Rightarrow> Inr ([CHR 0x0A] @ pair_len @ sig_pair))))"

section \<open>The wire format as the specification words it\<close>

text \<open>
  Base-128 varint of a natural number, as a list of byte values: the low seven bits
  with the continuation bit \<open>0x80\<close> while more than seven bits remain, then the
  final seven bits alone.  \<open>varint_value\<close> reads such a list back: seven data bits
  per byte, least significant group first.
\<close>

function varint_spec :: "nat \<Rightarrow> nat list" where
  "varint_spec n = (if n < 128 then [n] else (n mod 128 + 128) # varint_spec (n div 128))"
  by pat_completeness auto
termination
  by (relation "measure id") auto

fun varint_value :: "nat list \<Rightarrow> nat" where
  "varint_value [] = 0"
| "varint_value (b # bs) = b mod 128 + 128 * varint_value bs"

text \<open>
  Reading a string of ASCII decimal digits as a number, most significant digit first.
\<close>

definition is_digit :: "char \<Rightarrow> bool" where
  "is_digit c = (48 \<le> (of_char c :: nat) \<and> (of_char c :: nat) \<le> 57)"

definition decimal_value :: "string \<Rightarrow> nat" where
  "decimal_value s = foldl (\<lambda>acc c. 10 * acc + (of_char c - 48)) 0 s"

text \<open>
  The signature map as the specification describes it: an inner buffer of the public
  key under tag \<open>0x0a\<close> and the signature under the given tag, each with its varint
  length, wrapped under tag \<open>0x0a\<close> with the varint length of the inner buffer.
\<close>

definition varint_bytes :: "nat \<Rightarrow> bytes" where
  "varint_bytes n = map char_of (varint_spec n)"

definition signature_pair_spec :: "char \<Rightarrow> bytes \<Rightarrow> bytes \<Rightarrow> bytes" where
  "signature_pair_spec tag pub sig =
     [CHR 0x0A] @ varint_bytes (length pub) @ pub @ [tag] @ varint_bytes (length sig) @ sig"

definition signature_map_spec :: "char \<Rightarrow> bytes \<Rightarrow> bytes \<Rightarrow> bytes" where
  "signature_map_spec tag pub sig =
     [CHR 0x0A] @ varint_bytes (length (signature_pair_spec tag pub sig))
       @ signature_pair_spec tag pub sig"

text \<open>
  Decoding one length-delimited field at \<open>pos\<close>, the way the parse loop of
  \<open>sign_with_hedera_sdk\<close> (ex_deposit.py) reads one: the header byte gives the field
  number (\<open>>> 3\<close>) and the wire type (\<open>& 0x07\<close>), \<open>decode_varint\<close> gives the length,
  and the slice \<open>data[pos:pos+length]\<close> is the payload.  The decoder used for the round
  trip is strict where that loop is not: a wire type other than 2 and a payload that
  runs past the end of the buffer are rejected.
\<close>

definition decode_length_delimited :: "bytes \<Rightarrow> int \<Rightarrow> (int \<times> bytes \<times> int) option" where
  "decode_length_delimited data pos =
     (case getitem data pos of
        Inl e \<Rightarrow> None
      | Inr field_header \<Rightarrow>
          if field_header AND 0x07 = 2 then
            (case decode_varint data (pos + 1) of
               Inl e \<Rightarrow> None
             | Inr (field_len, pos') \<Rightarrow>
                 if 0 \<le> pos' \<and> 0 \<le> field_len \<and> pos' + field_len \<le> len data
                 then Some (drop_bit 3 field_header,
                            take (nat field_len) (drop (nat pos') data), pos' + field_len)
                 else None)
          else None)"

text \<open>
  Decoding a whole signature map: the outer field 1 spanning the buffer, and inside it
  the public key as field 1 followed by the signature field, spanning the inner buffer.
  The result is the public key, the field number of the signature, and the signature.
\<close>

definition decode_signature_map :: "bytes \<Rightarrow> (bytes \<times> int \<times> bytes) option" where
  "decode_signature_map buf =
     (case decode_length_delimited buf 0 of
        None \<Rightarrow> None
      | Some (outer_field, inner, outer_end) \<Rightarrow>
          if outer_field = 1 \<and> outer_end = len buf then
            (case decode_length_delimited inner 0 of
               None \<Rightarrow> None
             | Some (pub_field, pub, pub_end) \<Rightarrow>
                 if pub_field = 1 then
                   (case decode_length_delimited inner pub_end of
                      None \<Rightarrow> None
                    | Some (sig_field, sig, sig_end) \<Rightarrow>
                        if sig_end = len inner then Some (pub, sig_field, sig) else None)
                 else None)
          else None)"

section \<open>Standard-library codecs\<close>

text \<open>
  \<open>bs.decode('utf-8')\<close>.  With a \<open>str\<close> represented by its UTF-8 encoding, decoding
  is the identity on well-formed UTF-8 (RFC 3629: no overlong forms, no surrogates,
  nothing above U+10FFFF) and raises otherwise.
\<close>

definition utf8_cont :: "char \<Rightarrow> bool" where
  "utf8_cont c = (0x80 \<le> (of_char c :: nat) \<and> (of_char c :: nat) \<le> 0xBF)"

definition utf8_lead3 :: "char \<Rightarrow> char \<Rightarrow> bool" where
  "utf8_lead3 a b =
     (let x = (of_char a :: nat); y = (of_char b :: nat)
      in (x = 0xE0 \<and> 0xA0 \<le> y \<and> y \<le> 0xBF)
       \<or> (0xE1 \<le> x \<and> x \<le> 0xEC \<and> 0x80 \<le> y \<and> y \<le> 0xBF)
       \<or> (x = 0xED \<and> 0x80 \<le> y \<and> y \<le> 0x9F)
       \<or> (0xEE \<le> x \<and> x \<le> 0xEF \<and> 0x80 \<le> y \<and> y \<le> 0xBF))"

definition utf8_lead4 :: "char \<Rightarrow> char \<Rightarrow> bool" where
  "utf8_lead4 a b =
     (let x = (of_char a :: nat); y = (of_char b :: nat)
      in (x = 0xF0 \<and> 0x90 \<le> y \<and> y \<le> 0xBF)
       \<or> (0xF1 \<le> x \<and> x \<le> 0xF3 \<and> 0x80 \<le> y \<and> y \<le> 0xBF)
       \<or> (x = 0xF4 \<and> 0x80 \<le> y \<and> y \<le> 0x8F))"

fun valid_utf8 :: "bytes \<Rightarrow> bool" where
  "valid_utf8 [] = True"
| "valid_utf8 (a # bs) =
     (if (of_char a :: nat) < 0x80 then valid_utf8 bs
      else (case bs of
        [] \<Rightarrow> False
      | b # cs \<Rightarrow>
          if 0xC2 \<le> (of_char a :: nat) \<and> (of_char a :: nat) \<le> 0xDF
          then utf8_cont b \<and> valid_utf8 cs
          else (case cs of
            [] \<Rightarrow> False
          | c # ds \<Rightarrow>
              if utf8_lead3 a b then utf8_cont c \<and> valid_utf8 ds
              else (case ds of
                [] \<Rightarrow> False
              | d # es \<Rightarrow>
                  utf8_lead4 a b \<and> utf8_cont c \<and> utf8_cont d \<and> valid_utf8 es))))"

definition decode_utf8 :: "bytes \<Rightarrow> py_error + string" where
  "decode_utf8 bs = (if valid_utf8 bs then Inr bs else Inl UnicodeDecodeError)"

text \<open>
  \<open>base64.b64encode\<close>: RFC 4648 section 4, the standard alphabet, three bytes to four
  characters, \<open>=\<close> padding on a final group of one or two bytes.
\<close>

definition b64_alphabet :: string where
  "b64_alphabet = ''ABCDEFGHIJKLMNOPQRSTUVWXYZabcdefghijklmnopqrstuvwxyz0123456789+/''"

definition b64_char :: "int \<Rightarrow> char" where
  "b64_char i = b64_alphabet ! nat (i mod 64)"

fun b64encode :: "bytes \<Rightarrow> bytes" where
  "b64encode [] = []"
| "b64encode [a] =
     (let n = (of_char a :: int) * 65536
      in [b64_char (n div 262144), b64_char (n div 4096), CHR ''='', CHR ''=''])"
| "b64encode [a, b] =
     (let n = (of_char a :: int) * 65536 + of_char b * 256
      in [b64_char (n div 262144), b64_char (n div 4096), b64_char (n div 64), CHR ''=''])"
| "b64encode (a # b # c # rest) =
     (let n = (of_char a :: int) * 65536 + of_char b * 256 + of_char c
      in [b64_char (n div 262144), b64_char (n div 4096), b64_char (n div 64), b64_char n]
         @ b64encode rest)"

text \<open>
  \<open>bytes.fromhex\<close>: two hexadecimal digits per byte, ASCII whitespace skipped between
  bytes (Python 3.7 and later), \<open>ValueError\<close> on anything else.
\<close>

definition hex_digit :: "char \<Rightarrow> nat option" where
  "hex_digit c =
     (let x = (of_char c :: nat)
      in if 48 \<le> x \<and> x \<le> 57 then Some (x - 48)
         else if 97 \<le> x \<and> x \<le> 102 then Some (x - 87)
         else if 65 \<le> x \<and> x \<le> 70 then Some (x - 55)
         else None)"

definition is_space :: "char \<Rightarrow> bool" where
  "is_space c = (c \<in> set [CHR 0x20, CHR 0x09, CHR 0x0A, CHR 0x0B, CHR 0x0C, CHR 0x0D])"

fun fromhex :: "string \<Rightarrow> py_error + bytes" where
  "fromhex [] = Inr []"
| "fromhex (c # cs) =
     (if is_space c then fromhex cs
      else case hex_digit c of
        None \<Rightarrow> Inl ValueError
      | Some hi \<Rightarrow>
          (case cs of
             [] \<Rightarrow> Inl ValueError
           | d # ds \<Rightarrow>
               (case hex_digit d of
                  None \<Rightarrow> Inl ValueError
                | Some lo \<Rightarrow>
                    (case fromhex ds of
                       Inl e \<Rightarrow> Inl e
                     | Inr r \<Rightarrow> Inr (char_of (16 * hi + lo) # r)))))"

section \<open>Keys, challenge and verification request\<close>

text \<open>
  The cryptographic libraries are external; their functions are parameters of the
  model, each able to raise.  \<open>load_der_private_key\<close> is
  \<open>serialization.load_der_private_key(der, password=None, backend=default_backend())\<close>,
  \<open>public_bytes\<close> is \<open>key.public_key().public_bytes(Raw, Raw)\<close> and \<open>ed_sign\<close> is
  \<open>key.sign(message)\<close> of the \<open>cryptography\<close> package; \<open>from_string\<close> is
  \<open>SigningKey.from_string(raw, curve=SECP256k1)\<close>, \<open>to_string_compressed\<close> is
  \<open>key.get_verifying_key().to_string("compressed")\<close> and \<open>ecdsa_sign\<close> is
  \<open>key.sign(message, sigencode=sigencode_string)\<close> of the \<open>ecdsa\<close> package.  Both
  packages are taken to be installed, so that the \<open>import\<close> statements succeed.
\<close>

record 'k crypto_lib =
  load_der_private_key :: "bytes \<Rightarrow> py_error + 'k"
  public_bytes :: "'k \<Rightarrow> py_error + bytes"
  ed_sign :: "'k \<Rightarrow> bytes \<Rightarrow> py_error + bytes"
  from_string :: "bytes \<Rightarrow> py_error + 'k"
  to_string_compressed :: "'k \<Rightarrow> py_error + bytes"
  ecdsa_sign :: "'k \<Rightarrow> bytes \<Rightarrow> py_error + bytes"

text \<open>
  An HTTP response as the scripts read it: the status code and the result of
  \<open>.json()\<close>, a dictionary from keys to string values (or the exception it raises).
\<close>

record http_response =
  status_code :: int
  json :: "py_error + (string \<rightharpoonup> string)"

text \<open>The JSON body posted to \<open>/api/v1/auth/verify\<close>.\<close>

record verify_body =
  challenge_id :: string
  account_id :: string
  message_signed_plain_text :: string
  signature_map_base64 :: string
  sig_type :: string

subsection \<open>new_auth.py\<close>

definition load_ed25519_private_key :: "'k crypto_lib \<Rightarrow> string \<Rightarrow> py_error + 'k" where
  "load_ed25519_private_key lib der_hex =
     (case fromhex der_hex of
        Inl e \<Rightarrow> Inl e
      | Inr private_key_der \<Rightarrow> load_der_private_key lib private_key_der)"

text \<open>\<open>der_bytes[-32:]\<close> is the last 32 bytes, or all of them when there are fewer.\<close>

definition load_ecdsa_secp256k1_private_key :: "'k crypto_lib \<Rightarrow> string \<Rightarrow> py_error + 'k" where
  "load_ecdsa_secp256k1_private_key lib der_hex =
     (case fromhex der_hex of
        Inl e \<Rightarrow> Inl e
      | Inr der_bytes \<Rightarrow>
          (let raw_key = drop (length der_bytes - 32) der_bytes
           in from_string lib raw_key))"

definition get_public_key_bytes :: "'k crypto_lib \<Rightarrow> 'k \<Rightarrow> string \<Rightarrow> py_error + bytes" where
  "get_public_key_bytes lib private_key key_type =
     (if key_type = ''ed25519'' then public_bytes lib private_key
      else to_string_compressed lib private_key)"

definition sign_message :: "'k crypto_lib \<Rightarrow> 'k \<Rightarrow> bytes \<Rightarrow> string \<Rightarrow> py_error + bytes" where
  "sign_message lib private_key message key_type =
     (if key_type = ''ed25519'' then ed_sign lib private_key message
      else ecdsa_sign lib private_key message)"

text \<open>
  \<open>authenticate\<close> of new_auth.py, up to the payload it hands to
  \<open>generate_curl_command\<close> and \<open>save_curl_to_file\<close>; the module constants
  \<open>ACCOUNT_ID\<close>, \<open>PRIVATE_KEY_DER_HEX\<close> and \<open>KEY_TYPE\<close> and the outcome of the challenge
  request are arguments.  \<open>Inr None\<close> is the early \<open>return None\<close>; printing and the
  rendering of the curl command are left out.
\<close>

definition authenticate_new_auth ::
  "'k crypto_lib \<Rightarrow> string \<Rightarrow> string \<Rightarrow> string \<Rightarrow> py_error + http_response
     \<Rightarrow> py_error + verify_body option" where
  "authenticate_new_auth lib ACCOUNT_ID PRIVATE_KEY_DER_HEX KEY_TYPE challenge_post =
     (case (if KEY_TYPE = ''ed25519'' then load_ed25519_private_key lib PRIVATE_KEY_DER_HEX
            else load_ecdsa_secp256k1_private_key lib PRIVATE_KEY_DER_HEX) of
        Inl e \<Rightarrow> Inl e
      | Inr private_key \<Rightarrow>
     (case get_public_key_bytes lib private_key KEY_TYPE of
        Inl e \<Rightarrow> Inl e
      | Inr public_key_bytes \<Rightarrow>
     (case challenge_post of
        Inl e \<Rightarrow> Inl e
      | Inr challenge_res \<Rightarrow>
     (if status_code challenge_res \<noteq> 200 then Inr None
      else
     (case json challenge_res of
        Inl e \<Rightarrow> Inl e
      | Inr challenge_data \<Rightarrow>
     (case challenge_data ''challenge_id'' of
        None \<Rightarrow> Inl KeyError
      | Some challenge_id' \<Rightarrow>
     (case challenge_data ''message'' of
        None \<Rightarrow> Inl KeyError
      | Some canonical_message \<Rightarrow>
     (case challenge_data ''expires_at_utc'' of
        None \<Rightarrow> Inl KeyError
      | Some expires_at \<Rightarrow>
     (let canonical_bytes = canonical_message
      in
     (case build_hip820 canonical_bytes of
        Inl e \<Rightarrow> Inl e
      | Inr hip820_bytes \<Rightarrow>
     (case sign_message lib private_key hip820_bytes KEY_TYPE of
        Inl e \<Rightarrow> Inl e
      | Inr signature \<Rightarrow>
     (case build_signature_map_protobuf public_key_bytes signature KEY_TYPE of
        Inl e \<Rightarrow> Inl e
      | Inr signature_map \<Rightarrow>
     (case decode_utf8 (b64encode signature_map) of
        Inl e \<Rightarrow> Inl e
      | Inr signature_map_base64' \<Rightarrow>
          Inr (Some \<lparr>challenge_id = challenge_id', account_id = ACCOUNT_ID,
                     message_signed_plain_text = canonical_message,
                     signature_map_base64 = signature_map_base64',
                     sig_type = KEY_TYPE\<rparr>))))))))))))))"

subsection \<open>order_lifecycle_3.py\<close>

text \<open>
  \<open>authenticate\<close> of order_lifecycle_3.py, in two parts.  The first runs up to the body
  of the verification request; \<open>challenge_res\<close> is what \<open>safe_request\<close> returned for
  the challenge request (\<open>None\<close> after its retries failed), \<open>Inr None\<close> is an early
  \<open>return None\<close>, and \<open>Inl\<close> is an exception on its way to the handler.  An absent
  key and an empty string both fail the test \<open>not challenge_id or not message\<close>.
\<close>

definition authenticate_verify_body ::
  "'k crypto_lib \<Rightarrow> string \<Rightarrow> string \<Rightarrow> http_response option
     \<Rightarrow> py_error + verify_body option" where
  "authenticate_verify_body lib account_id' private_key_hex challenge_res =
     (case fromhex private_key_hex of
        Inl e \<Rightarrow> Inl e
      | Inr private_key_der \<Rightarrow>
     (case load_der_private_key lib private_key_der of
        Inl e \<Rightarrow> Inl e
      | Inr private_key \<Rightarrow>
     (case public_bytes lib private_key of
        Inl e \<Rightarrow> Inl e
      | Inr public_key_bytes \<Rightarrow>
     (case challenge_res of
        None \<Rightarrow> Inr None
      | Some challenge_res \<Rightarrow>
     (if status_code challenge_res \<noteq> 200 then Inr None
      else
     (case json challenge_res of
        Inl e \<Rightarrow> (if e = JSONDecodeError then Inr None else Inl e)
      | Inr challenge_data \<Rightarrow>
     (let challenge_id' = challenge_data ''challenge_id'';
          message = challenge_data ''message''
      in
     (if challenge_id' = None \<or> challenge_id' = Some [] \<or> message = None \<or> message = Some []
      then Inr None
      else
     (case build_hip820 (the message) of
        Inl e \<Rightarrow> Inl e
      | Inr hip820_bytes \<Rightarrow>
     (case ed_sign lib private_key hip820_bytes of
        Inl e \<Rightarrow> Inl e
      | Inr signature \<Rightarrow>
     (case build_signature_map public_key_bytes signature of
        Inl e \<Rightarrow> Inl e
      | Inr signature_map \<Rightarrow>
     (case decode_utf8 (b64encode signature_map) of
        Inl e \<Rightarrow> Inl e
      | Inr signature_map_base64' \<Rightarrow>
          Inr (Some \<lparr>challenge_id = the challenge_id', account_id = account_id',
                     message_signed_plain_text = the message,
                     signature_map_base64 = signature_map_base64',
                     sig_type = ''ed25519''\<rparr>)))))))))))))"

text \<open>
  The second part posts the body (\<open>verify_post\<close> is \<open>safe_request\<close> on the
  verification endpoint) and reads the token.  Every exception of the first part ends
  in the handler \<open>except Exception\<close>, which returns \<open>None\<close>.
\<close>

definition authenticate ::
  "'k crypto_lib \<Rightarrow> string \<Rightarrow> string \<Rightarrow> http_response option
     \<Rightarrow> (verify_body \<Rightarrow> http_response option) \<Rightarrow> string option" where
  "authenticate lib account_id' private_key_hex challenge_res verify_post =
     (case authenticate_verify_body lib account_id' private_key_hex challenge_res of
        Inl e \<Rightarrow> None
      | Inr None \<Rightarrow> None
      | Inr (Some body) \<Rightarrow>
     (case verify_post body of
        None \<Rightarrow> None
      | Some verify_res \<Rightarrow>
     (if status_code verify_res \<noteq> 200 then None
      else
     (case json verify_res of
        Inl e \<Rightarrow> None
      | Inr verify_data \<Rightarrow>
     (case verify_data ''access_token'' of
        None \<Rightarrow> None
      | Some token \<Rightarrow> if token = [] then None else Some token)))))"

subsection \<open>ex_deposit.py\<close>

text \<open>
  \<open>authenticate\<close> of ex_deposit.py, up to the body of the verification request.
  Nothing is caught here.  The message is read first, to be signed; the dictionary
  literal then reads \<open>challenge_id\<close>, the message once more, and encodes the
  signature map.
\<close>

definition authenticate_deposit ::
  "'k crypto_lib \<Rightarrow> string \<Rightarrow> string \<Rightarrow> py_error + http_response
     \<Rightarrow> py_error + verify_body option" where
  "authenticate_deposit lib account_id' private_key_hex challenge_post =
     (case fromhex private_key_hex of
        Inl e \<Rightarrow> Inl e
      | Inr private_key_der \<Rightarrow>
     (case load_der_private_key lib private_key_der of
        Inl e \<Rightarrow> Inl e
      | Inr private_key \<Rightarrow>
     (case public_bytes lib private_key of
        Inl e \<Rightarrow> Inl e
      | Inr public_key_bytes \<Rightarrow>
     (case challenge_post of
        Inl e \<Rightarrow> Inl e
      | Inr challenge_res \<Rightarrow>
     (if status_code challenge_res \<noteq> 200 then Inr None
      else
     (case json challenge_res of
        Inl e \<Rightarrow> Inl e
      | Inr challenge_data \<Rightarrow>
     (case challenge_data ''message'' of
        None \<Rightarrow> Inl KeyError
      | Some message \<Rightarrow>
     (case build_hip820 message of
        Inl e \<Rightarrow> Inl e
      | Inr hip820_bytes \<Rightarrow>
     (case ed_sign lib private_key hip820_bytes of
        Inl e \<Rightarrow> Inl e
      | Inr signature \<Rightarrow>
     (case build_signature_map public_key_bytes signature of
        Inl e \<Rightarrow> Inl e
      | Inr signature_map \<Rightarrow>
     (case challenge_data ''challenge_id'' of
        None \<Rightarrow> Inl KeyError
      | Some challenge_id' \<Rightarrow>
     (case decode_utf8 (b64encode signature_map) of
        Inl e \<Rightarrow> Inl e
      | Inr signature_map_base64' \<Rightarrow>
          Inr (Some \<lparr>challenge_id = challenge_id', account_id = account_id',
                     message_signed_plain_text = message,
                     signature_map_base64 = signature_map_base64',
                     sig_type = ''ed25519''\<rparr>)))))))))))))"

section \<open>The credential as the specification words it\<close>

text \<open>
  \<open>wrapMessage\<close>: the fixed prefix, the ASCII decimal length, one newline, the
  message.  \<open>buildAuthCredential\<close>: base64 of the signature map of the public key of
  the private key and the signature over the wrapped message, with the library
  functions of the chosen algorithm.
\<close>

definition wrapMessage :: "bytes \<Rightarrow> bytes" where
  "wrapMessage canonicalMessage =
     hip820_prefix @ str_nat (length canonicalMessage) @ [CHR 0x0A] @ canonicalMessage"

definition buildAuthCredential :: "'k crypto_lib \<Rightarrow> string \<Rightarrow> 'k \<Rightarrow> string \<Rightarrow> py_error + string" where
  "buildAuthCredential lib algorithm privateKey challengeMessage =
     (case (if algorithm = ''ed25519'' then public_bytes lib privateKey
            else to_string_compressed lib privateKey) of
        Inl e \<Rightarrow> Inl e
      | Inr pub \<Rightarrow>
     (case (if algorithm = ''ed25519'' then ed_sign lib privateKey (wrapMessage challengeMessage)
            else ecdsa_sign lib privateKey (wrapMessage challengeMessage)) of
        Inl e \<Rightarrow> Inl e
      | Inr sig \<Rightarrow>
          Inr (b64encode
                 (signature_map_spec (if algorithm = ''ed25519'' then CHR 0x1A else CHR 0x32)
                    pub sig))))"

section \<open>A stand-in library for concrete runs\<close>

text \<open>
  To run the model on concrete inputs the library functions need values.  This stand-in
  has the shapes of the real ones and none of their cryptography: a private key is the
  32 bytes after the 16-byte header of a 48-byte DER string (or a raw 32-byte string),
  the public key is those bytes reversed (after a \<open>0x02\<close> byte when compressed), and a
  signature is 64 bytes made of the key and the start of the message.
\<close>

definition toy_crypto :: "bytes crypto_lib" where
  "toy_crypto =
     \<lparr>load_der_private_key =
        (\<lambda>der. if length der = 48 then Inr (drop 16 der) else Inl ValueError),
      public_bytes = (\<lambda>k. Inr (rev k)),
      ed_sign = (\<lambda>k m. Inr (k @ take 32 (m @ replicate 32 (CHR 0x00)))),
      from_string = (\<lambda>raw. if length raw = 32 then Inr raw else Inl ValueError),
      to_string_compressed = (\<lambda>k. Inr (CHR 0x02 # rev k)),
      ecdsa_sign = (\<lambda>k m. Inr (rev k @ take 32 (m @ replicate 32 (CHR 0x00))))\<rparr>"

text \<open>The \<open>PRIVATE_KEY_DER_HEX\<close> constant of new_auth.py.\<close>

definition PRIVATE_KEY_DER_HEX :: string where
  "PRIVATE_KEY_DER_HEX =
     ''302e020100300506032b6570042204205db3a68cb7831bcefb625238e7800cc9dc85aab09b2acf97537af0d9ef667d7b''"

text \<open>The 16-byte DER header and the 32 key bytes that \<open>PRIVATE_KEY_DER_HEX\<close> spells.\<close>

definition PRIVATE_KEY_HEADER :: bytes where
  "PRIVATE_KEY_HEADER =
     [CHR 0x30, CHR 0x2E, CHR 0x02, CHR 0x01, CHR 0x00, CHR 0x30, CHR 0x05, CHR 0x06,
      CHR 0x03, CHR 0x2B, CHR 0x65, CHR 0x70, CHR 0x04, CHR 0x22, CHR 0x04, CHR 0x20]"

definition PRIVATE_KEY_SEED :: bytes where
  "PRIVATE_KEY_SEED =
     [CHR 0x5D, CHR 0xB3, CHR 0xA6, CHR 0x8C, CHR 0xB7, CHR 0x83, CHR 0x1B, CHR 0xCE,
      CHR 0xFB, CHR 0x62, CHR 0x52, CHR 0x38, CHR 0xE7, CHR 0x80, CHR 0x0C, CHR 0xC9,
      CHR 0xDC, CHR 0x85, CHR 0xAA, CHR 0xB0, CHR 0x9B, CHR 0x2A, CHR 0xCF, CHR 0x97,
      CHR 0x53, CHR 0x7A, CHR 0xF0, CHR 0xD9, CHR 0xEF, CHR 0x66, CHR 0x7D, CHR 0x7B]"

text \<open>A successful challenge response with the message \<open>hello\<close>.\<close>

definition hello_challenge :: http_response where
  "hello_challenge =
     \<lparr>status_code = 200,
      json = Inr [''challenge_id'' \<mapsto> ''c-1'', ''message'' \<mapsto> ''hello'',
                  ''expires_at_utc'' \<mapsto> ''2025-01-01T00:00:00Z'']\<rparr>"

section \<open>Reading a credential back\<close>

text \<open>
  Strict decoding of standard base64 (RFC 4648 section 4): groups of four characters of
  the alphabet, \<open>=\<close> padding only in the last group.  It is the inverse used to speak
  of the signature map inside a credential.
\<close>

definition b64_index :: "char \<Rightarrow> int option" where
  "b64_index c =
     (let x = (of_char c :: int)
      in if 65 \<le> x \<and> x \<le> 90 then Some (x - 65)
         else if 97 \<le> x \<and> x \<le> 122 then Some (x - 71)
         else if 48 \<le> x \<and> x \<le> 57 then Some (x + 4)
         else if x = 43 then Some 62
         else if x = 47 then Some 63
         else None)"

fun b64decode :: "bytes \<Rightarrow> bytes option" where
  "b64decode [] = Some []"
| "b64decode (a # b # c # d # rest) =
     (case b64_index a of
        None \<Rightarrow> None
      | Some i \<Rightarrow>
     (case b64_index b of
        None \<Rightarrow> None
      | Some j \<Rightarrow>
          if c = CHR ''='' \<and> d = CHR ''='' \<and> rest = []
          then Some [char_of ((i * 262144 + j * 4096) div 65536)]
          else
     (case b64_index c of
        None \<Rightarrow> None
      | Some k \<Rightarrow>
          if d = CHR ''='' \<and> rest = []
          then (let n = i * 262144 + j * 4096 + k * 64
                in Some [char_of (n div 65536), char_of (n div 256)])
          else
     (case b64_index d of
        None \<Rightarrow> None
      | Some l \<Rightarrow>
     (case b64decode rest of
        None \<Rightarrow> None
      | Some r \<Rightarrow>
          (let n = i * 262144 + j * 4096 + k * 64 + l
           in Some (char_of (n div 65536) # char_of (n div 256) # char_of n # r)))))))"
| "b64decode _ = None"

text \<open>
  A verification body carries a public key and a signature when its credential decodes
  to a signature map holding them, the signature as field 3 (\<open>ed25519\<close>).
\<close>

definition carries_signature :: "verify_body \<Rightarrow> bytes \<Rightarrow> bytes \<Rightarrow> bool" where
  "carries_signature body pub signature =
     (case b64decode (signature_map_base64 body) of
        None \<Rightarrow> False
      | Some signature_map \<Rightarrow> decode_signature_map signature_map = Some (pub, 3, signature))"

text \<open>A verification endpoint from which \<open>safe_request\<close> gets no response.\<close>

definition no_response :: "verify_body \<Rightarrow> http_response option" where
  "no_response body = None"

text \<open>The verification body that the stand-in library yields for the \<open>hello\<close> challenge.\<close>

definition hello_verify_body :: verify_body where
  "hello_verify_body =
     \<lparr>challenge_id = ''c-1'', account_id = ''0.0.6978377'',
      message_signed_plain_text = ''hello'',
      signature_map_base64 =
        ''CmQKIHt9Zu/Z8HpTl88qm7CqhdzJDIDnOFJi+84bg7eMprNdGkBds6aMt4MbzvtiUjjngAzJ3IWqsJsqz5dTevDZ72Z9exlIZWRlcmEgU2lnbmVkIE1lc3NhZ2U6CjUKaGVsbG8A'',
      sig_type = ''ed25519''\<rparr>"

text \<open>A successful challenge response whose message is the empty string.\<close>

definition empty_challenge :: http_response where
  "empty_challenge =
     \<lparr>status_code = 200,
      json = Inr [''challenge_id'' \<mapsto> ''c-1'', ''message'' \<mapsto> [],
                  ''expires_at_utc'' \<mapsto> ''2025-01-01T00:00:00Z'']\<rparr>"

text \<open>A verification endpoint that answers every request with a token.\<close>

definition granting_endpoint :: "verify_body \<Rightarrow> http_response option" where
  "granting_endpoint body =
     Some \<lparr>status_code = 200, json = Inr [''access_token'' \<mapsto> ''token'']\<rparr>"

section \<open>Verification: varint encoding\<close>

declare varint_spec.simps [simp del]
declare encode_varint_loop.simps [simp del]

lemma and_127: "(v::int) AND 0x7f = v mod 128"
proof -
  have "v AND mask 7 = v mod 2 ^ 7"
    by (simp only: take_bit_eq_mask [symmetric] take_bit_eq_mod)
  then show ?thesis by (simp add: mask_eq_exp_minus_1)
qed

lemma or_128: "(v::int) mod 128 OR 0x80 = v mod 128 + 128"
proof -
  have "take_bit 7 v AND (2::int) ^ 7 = 0"
  proof (rule bit_eqI)
    fix n
    show "bit (take_bit 7 v AND 2 ^ 7) n = bit (0::int) n"
      by (auto simp only: bit_and_iff bit_take_bit_iff bit_exp_iff bit_0_eq)
  qed
  then have "take_bit 7 v + 2 ^ 7 = take_bit 7 v OR (2::int) ^ 7"
    by (rule disjunctive_add_eq_or)
  then show ?thesis by (simp add: take_bit_eq_mod)
qed

lemma encode_varint_loop_spec:
  "0 \<le> v \<Longrightarrow>
   (case encode_varint_loop v acc of (v', r) \<Rightarrow> r @ [v' AND 0x7f]) =
   acc @ map int (varint_spec (nat v))"
proof (induction v acc rule: encode_varint_loop.induct)
  case (1 val result)
  show ?case
  proof (cases "val > 0x7f")
    case True
    have d: "nat (drop_bit 7 val) = nat val div 128"
      using "1.prems" by (simp add: drop_bit_eq_div nat_div_distrib)
    have m: "int (nat val mod 128) = val mod 128"
      using "1.prems" by (simp add: zmod_int)
    have "0 \<le> drop_bit 7 val" using "1.prems" by (simp add: drop_bit_eq_div)
    from "1.IH" [OF True this] True m show ?thesis
      by (subst encode_varint_loop.simps, subst varint_spec.simps)
         (simp add: d and_127 or_128)
  next
    case False
    with "1.prems" have "nat val < 128" by simp
    moreover have "val mod 128 = val" using False "1.prems" by simp
    ultimately show ?thesis using False "1.prems"
      by (subst encode_varint_loop.simps, subst varint_spec.simps) (simp add: and_127)
  qed
qed

lemma varint_spec_byte: "b \<in> set (varint_spec n) \<Longrightarrow> b < 256"
proof (induction n arbitrary: b rule: varint_spec.induct)
  case (1 n)
  then show ?case
    by (subst (asm) (2) varint_spec.simps) (auto split: if_splits)
qed

lemma varint_value_spec: "varint_value (varint_spec n) = n"
proof (induction n rule: varint_spec.induct)
  case (1 n)
  then show ?case
    by (subst varint_spec.simps) auto
qed

lemma py_bytes_nat: "\<forall>b \<in> set xs. b < 256 \<Longrightarrow> py_bytes (map int xs) = Inr (map char_of xs)"
  by (simp add: py_bytes_def list_all_iff)

lemma encode_varint_spec:
  "0 \<le> v \<Longrightarrow> encode_varint v = Inr (map char_of (varint_spec (nat v)))"
  using encode_varint_loop_spec [of v "[]"] varint_spec_byte [of _ "nat v"]
  by (simp add: encode_varint_def py_bytes_nat split: prod.splits)

lemma varint_spec_length: "n < 128 ^ k \<Longrightarrow> 0 < k \<Longrightarrow> length (varint_spec n) \<le> k"
proof (induction n arbitrary: k rule: varint_spec.induct)
  case (1 n)
  show ?case
  proof (cases "n < 128")
    case True
    then show ?thesis using "1.prems" by (subst varint_spec.simps) simp
  next
    case False
    then obtain j where k: "k = Suc j" using "1.prems" by (cases k) auto
    with False "1.prems" have "0 < j" by (cases j) auto
    moreover have "n div 128 < 128 ^ j" using "1.prems" k
      by (simp add: less_mult_imp_div_less mult.commute)
    ultimately have "length (varint_spec (n div 128)) \<le> j" using "1.IH" False by simp
    then show ?thesis using False k by (subst varint_spec.simps) simp
  qed
qed

text \<open>
  Claim C4.  For every unsigned integer \<open>v\<close> below \<open>2 ^ 32\<close>, \<open>encode_varint\<close>
  returns the standard base-128 varint of \<open>v\<close>: the bytes of \<open>varint_spec\<close>, which
  read back as \<open>v\<close> and are at most five; and \<open>encode_varint\<close> maps 0, 127, 128 and
  300 to \<open>00\<close>, \<open>7f\<close>, \<open>80 01\<close> and \<open>ac 02\<close>.
\<close>

theorem encode_varint_standard:
  assumes "0 \<le> v" and "v < 2 ^ 32"
  shows "encode_varint v = Inr (map char_of (varint_spec (nat v)))
       \<and> varint_value (varint_spec (nat v)) = nat v
       \<and> length (varint_spec (nat v)) \<le> 5
       \<and> encode_varint 0 = Inr [CHR 0x00]
       \<and> encode_varint 127 = Inr [CHR 0x7F]
       \<and> encode_varint 128 = Inr [CHR 0x80, CHR 0x01]
       \<and> encode_varint 300 = Inr [CHR 0xAC, CHR 0x02]"
proof -
  have "nat v < 128 ^ 5" using assms by simp
  then have "length (varint_spec (nat v)) \<le> 5" by (rule varint_spec_length) simp
  moreover have "encode_varint 0 = Inr [CHR 0x00]" by code_simp
  moreover have "encode_varint 127 = Inr [CHR 0x7F]" by code_simp
  moreover have "encode_varint 128 = Inr [CHR 0x80, CHR 0x01]" by code_simp
  moreover have "encode_varint 300 = Inr [CHR 0xAC, CHR 0x02]" by code_simp
  ultimately show ?thesis using assms(1) by (simp add: encode_varint_spec varint_value_spec)
qed

theorem encode_varint_standard_witness:
  "(0::int) \<le> 70000 \<and> (70000::int) < 2 ^ 32
   \<and> encode_varint 70000 = Inr [CHR 0xF0, CHR 0xA2, CHR 0x04]
   \<and> varint_spec 70000 = [0xF0, 0xA2, 0x04]"
proof -
  have s: "varint_spec 70000 = [0xF0, 0xA2, 0x04]" by (simp add: varint_spec.simps)
  have c: "map char_of [0xF0, 0xA2, 0x04 :: nat] = [CHR 0xF0, CHR 0xA2, CHR 0x04]"
    by code_simp
  have "(0::int) \<le> 70000" and "(70000::int) < 2 ^ 32" by simp_all
  from encode_varint_standard [OF this] s c show ?thesis by simp
qed

section \<open>Verification: varint decoding\<close>

declare decode_varint_loop.simps [simp del]

lemma and_128_low: "0 \<le> (x::int) \<Longrightarrow> x < 128 \<Longrightarrow> x AND 0x80 = 0"
proof -
  assume "0 \<le> x" "x < 128"
  then have "\<not> bit x 7" by (simp add: bit_iff_odd)
  then show ?thesis using and_exp_eq_0_iff_not_bit [of x 7] by simp
qed

lemma and_128_high: "0 \<le> (x::int) \<Longrightarrow> x < 128 \<Longrightarrow> (x + 128) AND 0x80 \<noteq> 0"
proof -
  assume "0 \<le> x" "x < 128"
  then have "(x + 128) div 128 = 1" by simp
  then have "bit (x + 128) 7" by (simp add: bit_iff_odd)
  then show ?thesis using and_exp_eq_0_iff_not_bit [of "x + 128" 7] by simp
qed

lemma split_low7: "(x::int) mod 128 OR push_bit 7 (x div 128) = x"
proof -
  have "take_bit 7 x AND push_bit 7 (drop_bit 7 x) = 0"
  proof (rule bit_eqI)
    fix n
    show "bit (take_bit 7 x AND push_bit 7 (drop_bit 7 x)) n = bit (0::int) n"
      by (auto simp only: bit_and_iff bit_take_bit_iff bit_push_bit_iff bit_0_eq)
  qed
  then have "take_bit 7 x OR push_bit 7 (drop_bit 7 x) = take_bit 7 x + push_bit 7 (drop_bit 7 x)"
    by (rule disjunctive_add_eq_or [symmetric])
  also have "\<dots> = x" using bits_ident [of 7 x] by (simp only: add.commute)
  finally show ?thesis by (simp only: take_bit_eq_mod drop_bit_eq_div) simp
qed

lemma of_char_char_of_nat: "n < 256 \<Longrightarrow> (of_char (char_of n) :: int) = int n"
proof -
  assume n: "n < 256"
  have "(of_char (char_of n) :: int) = int (of_char (char_of n))"
    by (simp only: of_nat_of_char)
  also have "\<dots> = int (n mod 256)" by (simp only: of_char_of)
  finally show ?thesis using n by simp
qed

lemma getitem_mid:
  "getitem (pre @ c # post) (len pre) = Inr (of_char c)"
  by (simp add: getitem_def len_def Let_def)

lemma decode_varint_loop_spec:
  "decode_varint_loop (pre @ map char_of (varint_spec n) @ post) (len pre) acc shift =
   Inr (acc OR push_bit shift (int n), len pre + len (varint_spec n))"
proof (induction n arbitrary: pre acc shift rule: varint_spec.induct)
  case (1 n)
  show ?case
  proof (cases "n < 128")
    case True
    then have s: "varint_spec n = [n]" by (subst varint_spec.simps) simp
    have b: "(of_char (char_of n) :: int) = int n" using True by (simp add: of_char_char_of_nat)
    have z: "int n AND 0x80 = 0" using True by (simp add: and_128_low)
    have m: "int n AND 0x7f = int n" using True by (simp add: and_127)
    show ?thesis
      by (subst decode_varint_loop.simps)
         (simp add: s getitem_mid b z m, simp add: len_def)
  next
    case False
    let ?b = "n mod 128 + 128"
    have s: "varint_spec n = ?b # varint_spec (n div 128)"
      using False by (subst varint_spec.simps) simp
    have b: "(of_char (char_of ?b) :: int) = int (n mod 128) + 128"
      using of_char_char_of_nat [of ?b] by simp
    have z: "(int (n mod 128) + 128) AND 0x80 \<noteq> 0" by (rule and_128_high) simp_all
    have m: "(int (n mod 128) + 128) AND 0x7f = int (n mod 128)" by (simp add: and_127)
    have ih: "decode_varint_loop
                ((pre @ [char_of ?b]) @ map char_of (varint_spec (n div 128)) @ post)
                (len (pre @ [char_of ?b])) (acc OR push_bit shift (int (n mod 128))) (shift + 7) =
              Inr ((acc OR push_bit shift (int (n mod 128))) OR push_bit (shift + 7) (int (n div 128)),
                   len (pre @ [char_of ?b]) + len (varint_spec (n div 128)))"
      using False by (intro "1.IH") simp
    have v: "(acc OR push_bit shift (int (n mod 128))) OR push_bit (shift + 7) (int (n div 128))
             = acc OR push_bit shift (int n)"
    proof -
      have "push_bit (shift + 7) (int (n div 128)) = push_bit shift (push_bit 7 (int n div 128))"
        by (simp only: push_bit_push_bit zdiv_int) simp
      moreover have "int (n mod 128) = int n mod 128" by (simp add: zmod_int)
      ultimately show ?thesis
        by (simp only: or.assoc push_bit_or [symmetric] split_low7)
    qed
    have l: "len (pre @ [char_of ?b]) = len pre + 1" by (simp add: len_def)
    have p: "len pre < len (pre @ char_of ?b # map char_of (varint_spec (n div 128)) @ post)"
      by (simp add: len_def)
    show ?thesis
      using ih z p
      by (subst decode_varint_loop.simps)
         (simp add: s getitem_mid b m v l, simp add: len_def)
  qed
qed


text \<open>
  Claim C9.  \<open>decode_varint\<close> is a left inverse of \<open>encode_varint\<close>: for every
  nonnegative integer \<open>v\<close>, encoding succeeds and decoding the encoding from
  position 0 returns \<open>v\<close> together with the length of the encoding.
\<close>

theorem decode_varint_encode_varint:
  assumes "0 \<le> v"
  shows "\<exists>enc. encode_varint v = Inr enc \<and> decode_varint enc 0 = Inr (v, len enc)"
proof -
  let ?enc = "map char_of (varint_spec (nat v))"
  have "decode_varint ?enc 0 = Inr (v, len ?enc)"
    using assms decode_varint_loop_spec [of "[]" "nat v" "[]" 0 0]
    by (simp add: decode_varint_def len_def)
  with encode_varint_spec [OF assms] show ?thesis by simp
qed

theorem decode_varint_encode_varint_witness:
  "(0::int) \<le> 300 \<and> encode_varint 300 = Inr [CHR 0xAC, CHR 0x02]
   \<and> decode_varint [CHR 0xAC, CHR 0x02] 0 = Inr (300, 2)"
proof -
  have e: "encode_varint 300 = Inr [CHR 0xAC, CHR 0x02]" by code_simp
  have "(0::int) \<le> 300" by simp
  from decode_varint_encode_varint [OF this] e show ?thesis by (simp add: len_def)
qed

section \<open>Verification: HIP-820 framing\<close>

declare str_nat.simps [simp del]

lemma of_char_digit: "d < 10 \<Longrightarrow> (of_char (char_of (48 + d)) :: nat) = 48 + d"
  by simp

lemma str_nat_digits: "list_all is_digit (str_nat n)"
proof (induction n rule: str_nat.induct)
  case (1 n)
  show ?case
  proof (cases "n < 10")
    case True
    then show ?thesis by (subst str_nat.simps) (simp add: is_digit_def)
  next
    case False
    have "n mod 10 < 10" by simp
    then have "is_digit (char_of (48 + n mod 10))"
      unfolding is_digit_def by (simp only: of_char_digit) simp
    with False "1.IH" show ?thesis by (subst str_nat.simps) simp
  qed
qed

lemma decimal_value_str_nat: "decimal_value (str_nat n) = n"
proof (induction n rule: str_nat.induct)
  case (1 n)
  show ?case
  proof (cases "n < 10")
    case True
    then show ?thesis by (subst str_nat.simps) (simp add: decimal_value_def)
  next
    case False
    have "n mod 10 < 10" by simp
    then have d: "(of_char (char_of (48 + n mod 10)) :: nat) = 48 + n mod 10"
      by (rule of_char_digit)
    from False "1.IH" have "decimal_value (str_nat (n div 10)) = n div 10" by simp
    then show ?thesis using False
      by (subst str_nat.simps) (simp add: decimal_value_def d del: of_char_of)
  qed
qed

lemma str_nat_nonempty: "str_nat n \<noteq> []"
  by (subst str_nat.simps) simp

lemma str_nat_hd: "(hd (str_nat n) = CHR ''0'') = (n = 0)"
proof (induction n rule: str_nat.induct)
  case (1 n)
  have z: "CHR ''0'' = char_of (48::nat)" by code_simp
  show ?case
  proof (cases "n < 10")
    case True
    then show ?thesis by (subst str_nat.simps) (simp add: z)
  next
    case False
    then have "n div 10 \<noteq> 0" by simp
    with False "1.IH" have "hd (str_nat (n div 10)) \<noteq> CHR ''0''" by simp
    with False show ?thesis by (subst str_nat.simps) (simp add: str_nat_nonempty)
  qed
qed

lemma is_digit_ascii: "is_digit c \<Longrightarrow> (of_char c :: nat) < 128"
  by (simp add: is_digit_def)

lemma is_digit_not_newline: "is_digit c \<Longrightarrow> c \<noteq> CHR 0x0A"
  by (auto simp: is_digit_def)

lemma encode_ascii_str_nat: "encode_ascii (str_nat n) = Inr (str_nat n)"
  using str_nat_digits [of n] by (auto simp: encode_ascii_def list_all_iff is_digit_ascii)

lemma build_hip820_eq:
  "build_hip820 m = Inr (hip820_prefix @ str_nat (length m) @ [CHR 0x0A] @ m)"
  by (simp add: build_hip820_def py_str_def len_def encode_ascii_str_nat)

text \<open>
  Claim C2.  For every byte string \<open>m\<close>, \<open>build_hip820 m\<close> returns the 24-byte
  prefix \<open>\x19Hedera Signed Message:\n\<close>, then the ASCII decimal digits of the
  length of \<open>m\<close> (digits only, reading back as that length, no leading zero), then
  one newline byte, then \<open>m\<close> unchanged; for the empty string the result is the prefix
  followed by \<open>0\n\<close>.
\<close>

theorem build_hip820_layout:
  "build_hip820 m = Inr (hip820_prefix @ str_nat (length m) @ [CHR 0x0A] @ m)
   \<and> hip820_prefix =
       [CHR 0x19, CHR ''H'', CHR ''e'', CHR ''d'', CHR ''e'', CHR ''r'', CHR ''a'', CHR '' '',
        CHR ''S'', CHR ''i'', CHR ''g'', CHR ''n'', CHR ''e'', CHR ''d'', CHR '' '',
        CHR ''M'', CHR ''e'', CHR ''s'', CHR ''s'', CHR ''a'', CHR ''g'', CHR ''e'', CHR '':'',
        CHR 0x0A]
   \<and> length hip820_prefix = 24
   \<and> list_all is_digit (str_nat (length m))
   \<and> decimal_value (str_nat (length m)) = length m
   \<and> (hd (str_nat (length m)) = CHR ''0'') = (length m = 0)
   \<and> build_hip820 [] = Inr (hip820_prefix @ [CHR ''0'', CHR 0x0A])"
proof -
  have "str_nat 0 = ''0''" by code_simp
  then have "build_hip820 [] = Inr (hip820_prefix @ [CHR ''0'', CHR 0x0A])"
    by (simp add: build_hip820_eq)
  then show ?thesis
    by (simp add: build_hip820_eq str_nat_digits decimal_value_str_nat str_nat_hd)
       (simp add: hip820_prefix_def)
qed

theorem build_hip820_layout_witness:
  "build_hip820 ''hello'' = Inr (hip820_prefix @ ''5'' @ [CHR 0x0A] @ ''hello'')
   \<and> decimal_value ''5'' = 5"
proof -
  have "str_nat (length ''hello'') = ''5''" by code_simp
  with build_hip820_layout [of "''hello''"] show ?thesis by simp
qed

lemma framed_eq:
  assumes "a @ [x] @ m1 = b @ [x] @ m2" and "x \<notin> set a" and "x \<notin> set b"
  shows "m1 = m2"
proof -
  have "takeWhile (\<lambda>c. c \<noteq> x) (a @ [x] @ m1) = a"
    using assms(2) by (subst takeWhile_append2) auto
  moreover have "takeWhile (\<lambda>c. c \<noteq> x) (b @ [x] @ m2) = b"
    using assms(3) by (subst takeWhile_append2) auto
  ultimately have "a = b" using assms(1) by simp
  with assms(1) show ?thesis by simp
qed

text \<open>
  Claim C10.  \<open>build_hip820\<close> is injective: distinct byte strings always frame to
  distinct byte strings (and framing never fails).
\<close>

theorem build_hip820_injective:
  assumes "m1 \<noteq> m2"
  shows "\<exists>w1 w2. build_hip820 m1 = Inr w1 \<and> build_hip820 m2 = Inr w2 \<and> w1 \<noteq> w2"
proof -
  have n1: "CHR 0x0A \<notin> set (str_nat (length m1))"
    using str_nat_digits [of "length m1"] is_digit_not_newline by (auto simp: list_all_iff)
  have n2: "CHR 0x0A \<notin> set (str_nat (length m2))"
    using str_nat_digits [of "length m2"] is_digit_not_newline by (auto simp: list_all_iff)
  have "hip820_prefix @ str_nat (length m1) @ [CHR 0x0A] @ m1 \<noteq>
        hip820_prefix @ str_nat (length m2) @ [CHR 0x0A] @ m2"
  proof
    assume "hip820_prefix @ str_nat (length m1) @ [CHR 0x0A] @ m1 =
            hip820_prefix @ str_nat (length m2) @ [CHR 0x0A] @ m2"
    then have "str_nat (length m1) @ [CHR 0x0A] @ m1 = str_nat (length m2) @ [CHR 0x0A] @ m2"
      by simp
    then have "m1 = m2" using n1 n2 by (rule framed_eq)
    with assms show False by simp
  qed
  then show ?thesis by (simp add: build_hip820_eq)
qed

theorem build_hip820_injective_witness:
  "''ab'' \<noteq> ''ba''
   \<and> build_hip820 ''ab'' = Inr (hip820_prefix @ ''2'' @ [CHR 0x0A] @ ''ab'')
   \<and> build_hip820 ''ba'' = Inr (hip820_prefix @ ''2'' @ [CHR 0x0A] @ ''ba'')
   \<and> hip820_prefix @ ''2'' @ [CHR 0x0A] @ ''ab'' \<noteq> hip820_prefix @ ''2'' @ [CHR 0x0A] @ ''ba''"
proof -
  have "str_nat (Suc (Suc 0)) = ''2''" by code_simp
  then have e1: "build_hip820 ''ab'' = Inr (hip820_prefix @ ''2'' @ [CHR 0x0A] @ ''ab'')"
    and e2: "build_hip820 ''ba'' = Inr (hip820_prefix @ ''2'' @ [CHR 0x0A] @ ''ba'')"
    by (simp_all add: build_hip820_eq)
  have "''ab'' \<noteq> ''ba''" by simp
  from build_hip820_injective [OF this] e1 e2 show ?thesis by auto
qed

section \<open>Verification: signature map\<close>

lemma encode_varint_len: "encode_varint (len xs) = Inr (varint_bytes (length xs))"
  by (simp add: encode_varint_spec len_def varint_bytes_def)

lemma build_signature_map_spec:
  "build_signature_map pub sig = Inr (signature_map_spec (CHR 0x1A) pub sig)"
  by (simp add: build_signature_map_def encode_varint_len Let_def
      signature_map_spec_def signature_pair_spec_def)

lemma build_signature_map_protobuf_spec:
  "build_signature_map_protobuf pub sig key_type =
     Inr (signature_map_spec (if key_type = ''ed25519'' then CHR 0x1A else CHR 0x32) pub sig)"
  by (simp add: build_signature_map_protobuf_def encode_varint_len Let_def
      signature_map_spec_def signature_pair_spec_def add.assoc)

lemma decode_varint_bytes:
  "decode_varint (pre @ varint_bytes n @ post) (len pre) =
     Inr (int n, len pre + len (varint_bytes n))"
  using decode_varint_loop_spec [of pre n post 0 0]
  by (simp add: decode_varint_def varint_bytes_def len_def)

lemma decode_length_delimited_field:
  assumes "(of_char tag :: int) AND 0x07 = 2"
  shows "decode_length_delimited (pre @ [tag] @ varint_bytes (length payload) @ payload @ post)
           (len pre) =
         Some (drop_bit 3 (of_char tag), payload,
               len pre + 1 + len (varint_bytes (length payload)) + len payload)"
proof -
  let ?data = "pre @ [tag] @ varint_bytes (length payload) @ payload @ post"
  have g: "getitem ?data (len pre) = Inr (of_char tag)"
    using getitem_mid [of pre tag] by simp
  have "decode_varint ((pre @ [tag]) @ varint_bytes (length payload) @ (payload @ post))
          (len (pre @ [tag])) =
        Inr (int (length payload), len (pre @ [tag]) + len (varint_bytes (length payload)))"
    by (rule decode_varint_bytes)
  then have d: "decode_varint ?data (len pre + 1) =
        Inr (int (length payload), len pre + 1 + len (varint_bytes (length payload)))"
    by (simp add: len_def add.commute)
  have t: "take (length payload)
             (drop (nat (len pre + 1 + len (varint_bytes (length payload)))) ?data) = payload"
    by (simp add: len_def nat_add_distrib)
  show ?thesis
    unfolding decode_length_delimited_def g d
    using assms t by (simp add: len_def)
qed


lemma decode_signature_map_spec:
  assumes "(of_char tag :: int) AND 0x07 = 2"
  shows "decode_signature_map (signature_map_spec tag pub sig) =
         Some (pub, drop_bit 3 (of_char tag), sig)"
proof -
  let ?sv = "varint_bytes (length sig)"
  let ?pv = "varint_bytes (length pub)"
  let ?pair = "signature_pair_spec tag pub sig"
  have a: "(of_char (CHR 0x0A) :: int) AND 0x07 = 2" by simp
  have f: "drop_bit 3 (of_char (CHR 0x0A) :: int) = 1" by (simp add: drop_bit_eq_div)
  have "decode_length_delimited ([] @ [CHR 0x0A] @ varint_bytes (length ?pair) @ ?pair @ [])
          (len ([] :: bytes)) =
        Some (drop_bit 3 (of_char (CHR 0x0A)), ?pair,
              len ([] :: bytes) + 1 + len (varint_bytes (length ?pair)) + len ?pair)"
    using a by (rule decode_length_delimited_field)
  then have outer: "decode_length_delimited (signature_map_spec tag pub sig) 0 =
        Some (1, ?pair, len (signature_map_spec tag pub sig))"
    unfolding f by (simp add: signature_map_spec_def len_def)
  have "decode_length_delimited ([] @ [CHR 0x0A] @ ?pv @ pub @ ([tag] @ ?sv @ sig))
          (len ([] :: bytes)) =
        Some (drop_bit 3 (of_char (CHR 0x0A)), pub,
              len ([] :: bytes) + 1 + len ?pv + len pub)"
    using a by (rule decode_length_delimited_field)
  then have first: "decode_length_delimited ?pair 0 = Some (1, pub, 1 + len ?pv + len pub)"
    unfolding f by (simp add: signature_pair_spec_def len_def)
  have "decode_length_delimited (([CHR 0x0A] @ ?pv @ pub) @ [tag] @ ?sv @ sig @ [])
          (len ([CHR 0x0A] @ ?pv @ pub)) =
        Some (drop_bit 3 (of_char tag), sig,
              len ([CHR 0x0A] @ ?pv @ pub) + 1 + len ?sv + len sig)"
    using assms by (rule decode_length_delimited_field)
  then have second: "decode_length_delimited ?pair (1 + len ?pv + len pub) =
        Some (drop_bit 3 (of_char tag), sig, len ?pair)"
    by (simp add: signature_pair_spec_def len_def add.assoc)
  show ?thesis
    by (simp add: decode_signature_map_def outer first second)
qed

lemma varint_bytes_small: "n < 128 \<Longrightarrow> varint_bytes n = [char_of n]"
  by (simp add: varint_bytes_def varint_spec.simps)


text \<open>
  Claim C3, as amended.  For a 32-byte public key and a 64-byte signature,
  \<open>build_signature_map\<close> returns a 102-byte buffer whose first byte is \<open>0x0a\<close>,
  whose second byte is the single-byte varint \<open>0x64\<close> (decimal 100, the length of the
  inner buffer), and which decodes back to exactly the public key (field 1) and the
  signature (field 3).
\<close>

theorem build_signature_map_wire:
  assumes "length pub = 32" and "length sig = 64"
  shows "\<exists>buf. build_signature_map pub sig = Inr buf
         \<and> buf = CHR 0x0A # CHR 0x64 # CHR 0x0A # CHR 0x20 # pub @ CHR 0x1A # CHR 0x40 # sig
         \<and> length buf = 102 \<and> buf ! 0 = CHR 0x0A \<and> buf ! 1 = CHR 0x64
         \<and> decode_signature_map buf = Some (pub, 3, sig)"
proof -
  have t: "(of_char (CHR 0x1A) :: int) AND 0x07 = 2" by simp
  have f: "drop_bit 3 (of_char (CHR 0x1A) :: int) = 3" by (simp add: drop_bit_eq_div)
  have c: "char_of (32 :: nat) = CHR 0x20" "char_of (64 :: nat) = CHR 0x40"
    "char_of (100 :: nat) = CHR 0x64" by code_simp+
  have e: "signature_map_spec (CHR 0x1A) pub sig =
           CHR 0x0A # CHR 0x64 # CHR 0x0A # CHR 0x20 # pub @ CHR 0x1A # CHR 0x40 # sig"
    using assms by (simp add: signature_map_spec_def signature_pair_spec_def varint_bytes_small c)
  have "decode_signature_map (signature_map_spec (CHR 0x1A) pub sig) = Some (pub, 3, sig)"
    using decode_signature_map_spec [OF t, of pub sig] by (simp only: f)
  then show ?thesis using assms by (simp add: build_signature_map_spec e)
qed

theorem build_signature_map_wire_witness:
  "length (replicate 32 (CHR 0x01)) = 32 \<and> length (replicate 64 (CHR 0x02)) = 64
   \<and> build_signature_map (replicate 32 (CHR 0x01)) (replicate 64 (CHR 0x02)) =
       Inr (CHR 0x0A # CHR 0x64 # CHR 0x0A # CHR 0x20 # replicate 32 (CHR 0x01)
              @ CHR 0x1A # CHR 0x40 # replicate 64 (CHR 0x02))
   \<and> decode_signature_map
         (CHR 0x0A # CHR 0x64 # CHR 0x0A # CHR 0x20 # replicate 32 (CHR 0x01)
            @ CHR 0x1A # CHR 0x40 # replicate 64 (CHR 0x02)) =
       Some (replicate 32 (CHR 0x01), 3, replicate 64 (CHR 0x02))"
proof -
  have "length (replicate 32 (CHR 0x01)) = 32" and "length (replicate 64 (CHR 0x02)) = 64"
    by simp_all
  from build_signature_map_wire [OF this] show ?thesis by auto
qed

text \<open>
  Claim C3 as first stated asks for \<open>0x66\<close> as the second byte.  For a 32-byte key and
  a 64-byte signature that byte is \<open>0x64\<close>: the inner buffer has
  \<open>1 + 1 + 32 + 1 + 1 + 64 = 100\<close> bytes, and 102 is the length of the whole buffer.
\<close>

theorem build_signature_map_second_byte_counterexample:
  "build_signature_map (replicate 32 (CHR 0x01)) (replicate 64 (CHR 0x02)) =
     Inr (CHR 0x0A # CHR 0x64 # CHR 0x0A # CHR 0x20 # replicate 32 (CHR 0x01)
            @ CHR 0x1A # CHR 0x40 # replicate 64 (CHR 0x02))
   \<and> (CHR 0x0A # CHR 0x64 # CHR 0x0A # CHR 0x20 # replicate 32 (CHR 0x01)
            @ CHR 0x1A # CHR 0x40 # replicate 64 (CHR 0x02)) ! 1 \<noteq> CHR 0x66"
proof -
  have c: "char_of (32 :: nat) = CHR 0x20" "char_of (64 :: nat) = CHR 0x40"
    "char_of (100 :: nat) = CHR 0x64" by code_simp+
  show ?thesis
    by (simp add: build_signature_map_spec signature_map_spec_def signature_pair_spec_def
        varint_bytes_small c)
qed

text \<open>
  Claim C6.  With key type \<open>ecdsa_secp256k1\<close>, \<open>build_signature_map_protobuf\<close> emits
  tag byte \<open>0x32\<close> (field 6, length-delimited) where the \<open>ed25519\<close> buffer has
  \<open>0x1a\<close> (field 3); the outer wrapper and the public-key sub-field before the tag,
  and the signature length and bytes after it, are the same in both buffers.
\<close>

theorem build_signature_map_protobuf_secp256k1:
  "(let pub_field = [CHR 0x0A] @ varint_bytes (length pub) @ pub;
        sig_body = varint_bytes (length sig) @ sig;
        outer = [CHR 0x0A] @ varint_bytes (length pub_field + 1 + length sig_body)
    in build_signature_map_protobuf pub sig ''ecdsa_secp256k1'' =
         Inr (outer @ pub_field @ [CHR 0x32] @ sig_body)
     \<and> build_signature_map_protobuf pub sig ''ed25519'' =
         Inr (outer @ pub_field @ [CHR 0x1A] @ sig_body)
     \<and> decode_signature_map (outer @ pub_field @ [CHR 0x32] @ sig_body) = Some (pub, 6, sig)
     \<and> decode_signature_map (outer @ pub_field @ [CHR 0x1A] @ sig_body) = Some (pub, 3, sig))"
proof -
  have t3: "(of_char (CHR 0x1A) :: int) AND 0x07 = 2" by simp
  have f3: "drop_bit 3 (of_char (CHR 0x1A) :: int) = 3" by (simp add: drop_bit_eq_div)
  have t6: "(of_char (CHR 0x32) :: int) AND 0x07 = 2" by simp
  have f6: "drop_bit 3 (of_char (CHR 0x32) :: int) = 6" by (simp add: drop_bit_eq_div)
  have e: "signature_map_spec tag pub sig =
           ([CHR 0x0A] @ varint_bytes (length ([CHR 0x0A] @ varint_bytes (length pub) @ pub) + 1
               + length (varint_bytes (length sig) @ sig)))
           @ ([CHR 0x0A] @ varint_bytes (length pub) @ pub) @ [tag]
           @ (varint_bytes (length sig) @ sig)" for tag
    by (simp add: signature_map_spec_def signature_pair_spec_def add.assoc)
  have d3: "decode_signature_map (signature_map_spec (CHR 0x1A) pub sig) = Some (pub, 3, sig)"
    using decode_signature_map_spec [OF t3, of pub sig] by (simp only: f3)
  have d6: "decode_signature_map (signature_map_spec (CHR 0x32) pub sig) = Some (pub, 6, sig)"
    using decode_signature_map_spec [OF t6, of pub sig] by (simp only: f6)
  have b6: "build_signature_map_protobuf pub sig ''ecdsa_secp256k1'' =
            Inr (signature_map_spec (CHR 0x32) pub sig)"
    by (simp add: build_signature_map_protobuf_spec)
  have b3: "build_signature_map_protobuf pub sig ''ed25519'' =
            Inr (signature_map_spec (CHR 0x1A) pub sig)"
    by (simp add: build_signature_map_protobuf_spec)
  show ?thesis
    unfolding Let_def b3 b6 using d3 d6 unfolding e by simp
qed

theorem build_signature_map_protobuf_secp256k1_witness:
  "build_signature_map_protobuf ''abc'' ''defg'' ''ecdsa_secp256k1'' =
     Inr ([CHR 0x0A, CHR 0x0B, CHR 0x0A, CHR 0x03] @ ''abc'' @ [CHR 0x32, CHR 0x04] @ ''defg'')
   \<and> build_signature_map_protobuf ''abc'' ''defg'' ''ed25519'' =
     Inr ([CHR 0x0A, CHR 0x0B, CHR 0x0A, CHR 0x03] @ ''abc'' @ [CHR 0x1A, CHR 0x04] @ ''defg'')
   \<and> decode_signature_map
         ([CHR 0x0A, CHR 0x0B, CHR 0x0A, CHR 0x03] @ ''abc'' @ [CHR 0x32, CHR 0x04] @ ''defg'') =
       Some (''abc'', 6, ''defg'')"
proof -
  have v1: "varint_bytes (length ''abc'') = [CHR 0x03]" by code_simp
  have v2: "varint_bytes (length ''defg'') = [CHR 0x04]" by code_simp
  have v3: "varint_bytes (length ([CHR 0x0A] @ [CHR 0x03] @ ''abc'') + 1
              + length ([CHR 0x04] @ ''defg'')) = [CHR 0x0B]" by code_simp
  from build_signature_map_protobuf_secp256k1 [of "''abc''" "''defg''"] show ?thesis
    unfolding Let_def v1 v2 v3 by simp
qed

text \<open>
  Claim C7 as first stated asks for an error on a negative or oversized length.
  \<open>encode_varint\<close> has no failing path: a negative argument and an argument beyond 64
  bits both yield byte strings.
\<close>

theorem encode_varint_no_error_counterexample:
  "encode_varint (- 1) = Inr [CHR 0x7F]
   \<and> encode_varint (2 ^ 64) =
       Inr [CHR 0x80, CHR 0x80, CHR 0x80, CHR 0x80, CHR 0x80, CHR 0x80, CHR 0x80, CHR 0x80,
            CHR 0x80, CHR 0x02]"
  by code_simp

text \<open>
  Claim C7, as amended.  \<open>encode_varint\<close> and the signature-map assembly never fail:
  \<open>encode_varint\<close> returns a byte string for every integer (the base-128 varint for a
  nonnegative one, of whatever size; the single byte \<open>value & 0x7f\<close> for a negative
  one), and both signature-map builders return the assembled buffer for every public
  key, signature and key type.
\<close>

theorem encode_varint_total:
  "encode_varint v = Inr (if v < 0 then [char_of (v mod 128)] else varint_bytes (nat v))
   \<and> build_signature_map pub sig = Inr (signature_map_spec (CHR 0x1A) pub sig)
   \<and> build_signature_map_protobuf pub sig key_type =
       Inr (signature_map_spec (if key_type = ''ed25519'' then CHR 0x1A else CHR 0x32) pub sig)"
proof -
  have "encode_varint v = Inr [char_of (v mod 128)]" if "v < 0"
  proof -
    have "encode_varint_loop v [] = (v, [])"
      using that by (subst encode_varint_loop.simps) simp
    then show ?thesis
      by (simp add: encode_varint_def py_bytes_def and_127)
  qed
  moreover have "encode_varint v = Inr (varint_bytes (nat v))" if "\<not> v < 0"
    using that by (simp add: encode_varint_spec varint_bytes_def)
  ultimately show ?thesis
    by (simp add: build_signature_map_spec build_signature_map_protobuf_spec)
qed

theorem encode_varint_total_witness:
  "encode_varint (- 300) = Inr [CHR ''T'']
   \<and> build_signature_map ''abc'' ''defg'' =
       Inr ([CHR 0x0A, CHR 0x0B, CHR 0x0A, CHR 0x03] @ ''abc'' @ [CHR 0x1A, CHR 0x04] @ ''defg'')"
proof -
  have sm: "signature_map_spec (CHR 0x1A) ''abc'' ''defg'' =
            [CHR 0x0A, CHR 0x0B, CHR 0x0A, CHR 0x03] @ ''abc'' @ [CHR 0x1A, CHR 0x04] @ ''defg''"
    by code_simp
  have m: "char_of (84 :: int) = CHR ''T''" by code_simp
  from encode_varint_total [of "- 300" "''abc''" "''defg''" "''ed25519''"] show ?thesis
    by (simp add: sm m)
qed

section \<open>Verification: base64 text\<close>

lemma b64_alphabet_length: "length b64_alphabet = 64"
  by (simp add: b64_alphabet_def)

lemma b64_char_alphabet: "b64_char i \<in> set b64_alphabet"
proof -
  have "nat (i mod 64) < length b64_alphabet" by (simp add: b64_alphabet_length)
  then show ?thesis unfolding b64_char_def by (rule nth_mem)
qed

lemma b64encode_alphabet: "set (b64encode xs) \<subseteq> set b64_alphabet \<union> {CHR ''=''}"
  by (induction xs rule: b64encode.induct) (auto simp: Let_def b64_char_alphabet)

lemma b64encode_length: "length (b64encode xs) = 4 * ((length xs + 2) div 3)"
proof (induction xs rule: b64encode.induct)
  case (4 a b c rest)
  have "(length rest + 5) div 3 = Suc ((length rest + 2) div 3)" by arith
  with 4 show ?case by (simp add: Let_def add.commute)
qed (simp_all add: Let_def)

lemma b64_alphabet_ascii: "c \<in> set b64_alphabet \<union> {CHR ''=''} \<Longrightarrow> (of_char c :: nat) < 128"
  by (auto simp: b64_alphabet_def)

lemma b64_alphabet_not_urlsafe: "CHR ''-'' \<notin> set b64_alphabet \<and> CHR ''_'' \<notin> set b64_alphabet"
  by (simp add: b64_alphabet_def)

lemma valid_utf8_ascii: "list_all (\<lambda>c. (of_char c :: nat) < 128) bs \<Longrightarrow> valid_utf8 bs"
  by (induction bs) simp_all

lemma decode_utf8_b64encode: "decode_utf8 (b64encode xs) = Inr (b64encode xs)"
proof -
  have "list_all (\<lambda>c. (of_char c :: nat) < 128) (b64encode xs)"
    using b64encode_alphabet [of xs] b64_alphabet_ascii by (auto simp: list_all_iff)
  then show ?thesis by (simp add: decode_utf8_def valid_utf8_ascii)
qed

section \<open>Verification: the credential\<close>

lemma build_hip820_wrapMessage: "build_hip820 m = Inr (wrapMessage m)"
  by (simp add: build_hip820_eq wrapMessage_def)

lemma authenticate_new_auth_credential:
  assumes "(if KEY_TYPE = ''ed25519'' then load_ed25519_private_key lib hex
            else load_ecdsa_secp256k1_private_key lib hex) = Inr key"
    and "status_code res = 200" and "json res = Inr data"
    and "data ''challenge_id'' = Some cid" and "data ''message'' = Some msg"
    and "data ''expires_at_utc'' = Some exp"
  shows "authenticate_new_auth lib acct hex KEY_TYPE (Inr res) =
         (case buildAuthCredential lib KEY_TYPE key msg of
            Inl e \<Rightarrow> Inl e
          | Inr cred \<Rightarrow>
              Inr (Some \<lparr>challenge_id = cid, account_id = acct,
                         message_signed_plain_text = msg, signature_map_base64 = cred,
                         sig_type = KEY_TYPE\<rparr>))"
  unfolding authenticate_new_auth_def assms(1)
  using assms(2-)
  by (simp add: get_public_key_bytes_def sign_message_def buildAuthCredential_def
      build_hip820_wrapMessage build_signature_map_protobuf_spec decode_utf8_b64encode
      split: sum.splits)

lemma authenticate_verify_body_credential:
  assumes "fromhex hex = Inr der" and "load_der_private_key lib der = Inr key"
    and "status_code res = 200" and "json res = Inr data"
    and "data ''challenge_id'' = Some cid" and "data ''message'' = Some msg"
    and "cid \<noteq> []" and "msg \<noteq> []"
  shows "authenticate_verify_body lib acct hex (Some res) =
         (case buildAuthCredential lib ''ed25519'' key msg of
            Inl e \<Rightarrow> Inl e
          | Inr cred \<Rightarrow>
              Inr (Some \<lparr>challenge_id = cid, account_id = acct,
                         message_signed_plain_text = msg, signature_map_base64 = cred,
                         sig_type = ''ed25519''\<rparr>))"
  unfolding authenticate_verify_body_def
  using assms
  by (simp add: buildAuthCredential_def Let_def
      build_hip820_wrapMessage build_signature_map_spec decode_utf8_b64encode
      split: sum.splits)

lemma authenticate_deposit_credential:
  assumes "fromhex hex = Inr der" and "load_der_private_key lib der = Inr key"
    and "status_code res = 200" and "json res = Inr data"
    and "data ''challenge_id'' = Some cid" and "data ''message'' = Some msg"
  shows "authenticate_deposit lib acct hex (Inr res) =
         (case buildAuthCredential lib ''ed25519'' key msg of
            Inl e \<Rightarrow> Inl e
          | Inr cred \<Rightarrow>
              Inr (Some \<lparr>challenge_id = cid, account_id = acct,
                         message_signed_plain_text = msg, signature_map_base64 = cred,
                         sig_type = ''ed25519''\<rparr>))"
  unfolding authenticate_deposit_def
  using assms
  by (simp add: buildAuthCredential_def Let_def
      build_hip820_wrapMessage build_signature_map_spec decode_utf8_b64encode
      split: sum.splits)


text \<open>
  Claim C1 as first stated speaks of every challenge message.  \<open>authenticate\<close> of
  order_lifecycle_3.py tests \<open>not challenge_id or not message\<close> and returns \<open>None\<close> for
  an empty message, even from an endpoint that would grant a token, while the credential
  of the empty message exists: new_auth.py and ex_deposit.py, which have no such test,
  put it into their requests.
\<close>

theorem authenticate_empty_message_counterexample:
  "load_ed25519_private_key toy_crypto PRIVATE_KEY_DER_HEX = Inr PRIVATE_KEY_SEED
   \<and> buildAuthCredential toy_crypto ''ed25519'' PRIVATE_KEY_SEED [] =
       Inr ''CmQKIHt9Zu/Z8HpTl88qm7CqhdzJDIDnOFJi+84bg7eMprNdGkBds6aMt4MbzvtiUjjngAzJ3IWqsJsqz5dTevDZ72Z9exlIZWRlcmEgU2lnbmVkIE1lc3NhZ2U6CjAKAAAAAAAA''
   \<and> authenticate_verify_body toy_crypto ''0.0.6978377'' PRIVATE_KEY_DER_HEX
         (Some empty_challenge) = Inr None
   \<and> authenticate toy_crypto ''0.0.6978377'' PRIVATE_KEY_DER_HEX (Some empty_challenge)
         granting_endpoint = None
   \<and> authenticate toy_crypto ''0.0.6978377'' PRIVATE_KEY_DER_HEX (Some hello_challenge)
         granting_endpoint = Some ''token''
   \<and> authenticate_new_auth toy_crypto ''0.0.6978377'' PRIVATE_KEY_DER_HEX ''ed25519''
         (Inr empty_challenge) =
       Inr (Some \<lparr>challenge_id = ''c-1'', account_id = ''0.0.6978377'',
                  message_signed_plain_text = [],
                  signature_map_base64 =
                    ''CmQKIHt9Zu/Z8HpTl88qm7CqhdzJDIDnOFJi+84bg7eMprNdGkBds6aMt4MbzvtiUjjngAzJ3IWqsJsqz5dTevDZ72Z9exlIZWRlcmEgU2lnbmVkIE1lc3NhZ2U6CjAKAAAAAAAA'',
                  sig_type = ''ed25519''\<rparr>)
   \<and> authenticate_deposit toy_crypto ''0.0.6978377'' PRIVATE_KEY_DER_HEX
         (Inr empty_challenge) =
       Inr (Some \<lparr>challenge_id = ''c-1'', account_id = ''0.0.6978377'',
                  message_signed_plain_text = [],
                  signature_map_base64 =
                    ''CmQKIHt9Zu/Z8HpTl88qm7CqhdzJDIDnOFJi+84bg7eMprNdGkBds6aMt4MbzvtiUjjngAzJ3IWqsJsqz5dTevDZ72Z9exlIZWRlcmEgU2lnbmVkIE1lc3NhZ2U6CjAKAAAAAAAA'',
                  sig_type = ''ed25519''\<rparr>)"
  by code_simp

text \<open>
  Claim C1, as amended.  Let the key have loaded and the challenge response (status 200)
  carry a challenge id and a message.  Then the credential that \<open>authenticate\<close> puts
  into the verification request is \<open>buildAuthCredential\<close>: base64 of the signature map
  of the public key and of the signature over the wrapped message, a failure of a
  library function being passed on.  This holds in new_auth.py for either key type and
  every message, the empty one included, provided the response also carries
  \<open>expires_at_utc\<close>, which that script reads (without it the script raises
  \<open>KeyError\<close>); and in order_lifecycle_3.py for every non-empty message with a
  non-empty challenge id, an empty one making it return \<open>None\<close> with no credential
  built.  The base64 text is standard and padded: four characters for every three
  bytes, rounded up, all from the alphabet \<open>A-Z a-z 0-9 + /\<close> or the padding \<open>=\<close>,
  hence without the URL-safe \<open>-\<close> and \<open>_\<close>.
\<close>

theorem authenticate_end_to_end:
  assumes "status_code res = 200" and "json res = Inr data"
    and "data ''challenge_id'' = Some cid" and "data ''message'' = Some msg"
  shows "(\<forall>exp. data ''expires_at_utc'' = Some exp
            \<and> (if KEY_TYPE = ''ed25519'' then load_ed25519_private_key lib hex
                 else load_ecdsa_secp256k1_private_key lib hex) = Inr key \<longrightarrow>
            authenticate_new_auth lib acct hex KEY_TYPE (Inr res) =
              (case buildAuthCredential lib KEY_TYPE key msg of
                 Inl e \<Rightarrow> Inl e
               | Inr cred \<Rightarrow>
                   Inr (Some \<lparr>challenge_id = cid, account_id = acct,
                              message_signed_plain_text = msg, signature_map_base64 = cred,
                              sig_type = KEY_TYPE\<rparr>)))
       \<and> (load_ed25519_private_key lib hex = Inr key \<and> cid \<noteq> [] \<and> msg \<noteq> [] \<longrightarrow>
            authenticate_verify_body lib acct hex (Some res) =
              (case buildAuthCredential lib ''ed25519'' key msg of
                 Inl e \<Rightarrow> Inl e
               | Inr cred \<Rightarrow>
                   Inr (Some \<lparr>challenge_id = cid, account_id = acct,
                              message_signed_plain_text = msg, signature_map_base64 = cred,
                              sig_type = ''ed25519''\<rparr>)))
       \<and> (load_ed25519_private_key lib hex = Inr key \<and> (cid = [] \<or> msg = []) \<longrightarrow>
            authenticate_verify_body lib acct hex (Some res) =
              (case public_bytes lib key of Inl e \<Rightarrow> Inl e | Inr pub \<Rightarrow> Inr None))
       \<and> (data ''expires_at_utc'' = None
            \<and> (if KEY_TYPE = ''ed25519'' then load_ed25519_private_key lib hex
                 else load_ecdsa_secp256k1_private_key lib hex) = Inr key \<longrightarrow>
            authenticate_new_auth lib acct hex KEY_TYPE (Inr res) =
              (case get_public_key_bytes lib key KEY_TYPE of
                 Inl e \<Rightarrow> Inl e
               | Inr pub \<Rightarrow> Inl KeyError))
       \<and> (\<forall>cred. buildAuthCredential lib KEY_TYPE key msg = Inr cred \<longrightarrow>
             (\<exists>pub sig. get_public_key_bytes lib key KEY_TYPE = Inr pub
                \<and> sign_message lib key (wrapMessage msg) KEY_TYPE = Inr sig
                \<and> cred = b64encode
                     (signature_map_spec (if KEY_TYPE = ''ed25519'' then CHR 0x1A else CHR 0x32)
                        pub sig)
                \<and> length cred =
                    4 * ((length (signature_map_spec
                            (if KEY_TYPE = ''ed25519'' then CHR 0x1A else CHR 0x32) pub sig) + 2)
                         div 3)
                \<and> set cred \<subseteq> set b64_alphabet \<union> {CHR ''=''}
                \<and> CHR ''-'' \<notin> set cred \<and> CHR ''_'' \<notin> set cred))"
proof -
  have n: "authenticate_new_auth lib acct hex KEY_TYPE (Inr res) =
             (case buildAuthCredential lib KEY_TYPE key msg of
                Inl e \<Rightarrow> Inl e
              | Inr cred \<Rightarrow>
                  Inr (Some \<lparr>challenge_id = cid, account_id = acct,
                             message_signed_plain_text = msg, signature_map_base64 = cred,
                             sig_type = KEY_TYPE\<rparr>))"
    if "data ''expires_at_utc'' = Some exp"
      and "(if KEY_TYPE = ''ed25519'' then load_ed25519_private_key lib hex
            else load_ecdsa_secp256k1_private_key lib hex) = Inr key" for exp
    using authenticate_new_auth_credential [OF that(2) assms that(1)] .
  have v: "authenticate_verify_body lib acct hex (Some res) =
             (case buildAuthCredential lib ''ed25519'' key msg of
                Inl e \<Rightarrow> Inl e
              | Inr cred \<Rightarrow>
                  Inr (Some \<lparr>challenge_id = cid, account_id = acct,
                             message_signed_plain_text = msg, signature_map_base64 = cred,
                             sig_type = ''ed25519''\<rparr>))"
    if "load_ed25519_private_key lib hex = Inr key" and "cid \<noteq> []" and "msg \<noteq> []"
  proof -
    from that(1) obtain der where
      d: "fromhex hex = Inr der" and l: "load_der_private_key lib der = Inr key"
      by (auto simp: load_ed25519_private_key_def split: sum.splits)
    show ?thesis
      by (rule authenticate_verify_body_credential [OF d l assms that(2,3)])
  qed
  have u: "CHR ''-'' \<notin> set (b64encode xs) \<and> CHR ''_'' \<notin> set (b64encode xs)" for xs
    using b64encode_alphabet [of xs] b64_alphabet_not_urlsafe by auto
  have c: "\<exists>pub sig. get_public_key_bytes lib key KEY_TYPE = Inr pub
          \<and> sign_message lib key (wrapMessage msg) KEY_TYPE = Inr sig
          \<and> cred = b64encode
               (signature_map_spec (if KEY_TYPE = ''ed25519'' then CHR 0x1A else CHR 0x32)
                  pub sig)
          \<and> length cred =
              4 * ((length (signature_map_spec
                      (if KEY_TYPE = ''ed25519'' then CHR 0x1A else CHR 0x32) pub sig) + 2)
                   div 3)
          \<and> set cred \<subseteq> set b64_alphabet \<union> {CHR ''=''}
          \<and> CHR ''-'' \<notin> set cred \<and> CHR ''_'' \<notin> set cred"
    if "buildAuthCredential lib KEY_TYPE key msg = Inr cred" for cred
  proof -
    from that obtain pub sig where
      p: "get_public_key_bytes lib key KEY_TYPE = Inr pub" and
      s: "sign_message lib key (wrapMessage msg) KEY_TYPE = Inr sig" and
      e: "cred = b64encode
            (signature_map_spec (if KEY_TYPE = ''ed25519'' then CHR 0x1A else CHR 0x32) pub sig)"
      unfolding buildAuthCredential_def get_public_key_bytes_def sign_message_def
      by (auto split: sum.splits if_splits)
    from e have "length cred =
        4 * ((length (signature_map_spec
                (if KEY_TYPE = ''ed25519'' then CHR 0x1A else CHR 0x32) pub sig) + 2) div 3)"
      by (simp only: b64encode_length)
    moreover from e have "set cred \<subseteq> set b64_alphabet \<union> {CHR ''=''}"
      by (simp only: b64encode_alphabet)
    moreover from e have "CHR ''-'' \<notin> set cred \<and> CHR ''_'' \<notin> set cred"
      by (simp add: u)
    ultimately show ?thesis using p s e by blast
  qed
  have g: "authenticate_verify_body lib acct hex (Some res) =
             (case public_bytes lib key of Inl e \<Rightarrow> Inl e | Inr pub \<Rightarrow> Inr None)"
    if "load_ed25519_private_key lib hex = Inr key" and "cid = [] \<or> msg = []"
  proof -
    from that(1) obtain der where
      d: "fromhex hex = Inr der" and l: "load_der_private_key lib der = Inr key"
      by (auto simp: load_ed25519_private_key_def split: sum.splits)
    show ?thesis
      using d l assms that(2)
      by (auto simp: authenticate_verify_body_def Let_def split: sum.splits)
  qed
  have x: "authenticate_new_auth lib acct hex KEY_TYPE (Inr res) =
             (case get_public_key_bytes lib key KEY_TYPE of
                Inl e \<Rightarrow> Inl e
              | Inr pub \<Rightarrow> Inl KeyError)"
    if "data ''expires_at_utc'' = None"
      and "(if KEY_TYPE = ''ed25519'' then load_ed25519_private_key lib hex
            else load_ecdsa_secp256k1_private_key lib hex) = Inr key"
    using assms that by (simp add: authenticate_new_auth_def split: sum.splits)
  from n v g x c show ?thesis by blast
qed

theorem authenticate_end_to_end_witness:
  "load_ed25519_private_key toy_crypto PRIVATE_KEY_DER_HEX = Inr PRIVATE_KEY_SEED
   \<and> authenticate_new_auth toy_crypto ''0.0.6978377'' PRIVATE_KEY_DER_HEX ''ed25519''
         (Inr hello_challenge) =
       Inr (Some \<lparr>challenge_id = ''c-1'', account_id = ''0.0.6978377'',
                  message_signed_plain_text = ''hello'',
                  signature_map_base64 =
                    ''CmQKIHt9Zu/Z8HpTl88qm7CqhdzJDIDnOFJi+84bg7eMprNdGkBds6aMt4MbzvtiUjjngAzJ3IWqsJsqz5dTevDZ72Z9exlIZWRlcmEgU2lnbmVkIE1lc3NhZ2U6CjUKaGVsbG8A'',
                  sig_type = ''ed25519''\<rparr>)
   \<and> authenticate_verify_body toy_crypto ''0.0.6978377'' PRIVATE_KEY_DER_HEX
         (Some hello_challenge) =
       Inr (Some \<lparr>challenge_id = ''c-1'', account_id = ''0.0.6978377'',
                  message_signed_plain_text = ''hello'',
                  signature_map_base64 =
                    ''CmQKIHt9Zu/Z8HpTl88qm7CqhdzJDIDnOFJi+84bg7eMprNdGkBds6aMt4MbzvtiUjjngAzJ3IWqsJsqz5dTevDZ72Z9exlIZWRlcmEgU2lnbmVkIE1lc3NhZ2U6CjUKaGVsbG8A'',
                  sig_type = ''ed25519''\<rparr>)
   \<and> authenticate_verify_body toy_crypto ''0.0.6978377'' PRIVATE_KEY_DER_HEX
         (Some empty_challenge) = Inr None"
proof -
  let ?data = "[''challenge_id'' \<mapsto> ''c-1'', ''message'' \<mapsto> ''hello'',
                ''expires_at_utc'' \<mapsto> ''2025-01-01T00:00:00Z'']"
  have k: "load_ed25519_private_key toy_crypto PRIVATE_KEY_DER_HEX = Inr PRIVATE_KEY_SEED"
    by code_simp
  have h3: "status_code hello_challenge = 200" by (simp add: hello_challenge_def)
  have h4: "json hello_challenge = Inr ?data" by (simp add: hello_challenge_def)
  have h5: "?data ''challenge_id'' = Some ''c-1''" by simp
  have h6: "?data ''message'' = Some ''hello''" by simp
  have h7: "?data ''expires_at_utc'' = Some ''2025-01-01T00:00:00Z''" by simp
  have h8: "''c-1'' \<noteq> []" and h9: "''hello'' \<noteq> []" by simp_all
  have c: "buildAuthCredential toy_crypto ''ed25519'' PRIVATE_KEY_SEED ''hello'' =
           Inr ''CmQKIHt9Zu/Z8HpTl88qm7CqhdzJDIDnOFJi+84bg7eMprNdGkBds6aMt4MbzvtiUjjngAzJ3IWqsJsqz5dTevDZ72Z9exlIZWRlcmEgU2lnbmVkIE1lc3NhZ2U6CjUKaGVsbG8A''"
    by code_simp
  from k h7 h8 h9
    authenticate_end_to_end [OF h3 h4 h5 h6, of "''ed25519''" toy_crypto PRIVATE_KEY_DER_HEX
      PRIVATE_KEY_SEED "''0.0.6978377''"]
  have "authenticate_new_auth toy_crypto ''0.0.6978377'' PRIVATE_KEY_DER_HEX ''ed25519''
          (Inr hello_challenge) =
        (case buildAuthCredential toy_crypto ''ed25519'' PRIVATE_KEY_SEED ''hello'' of
           Inl e \<Rightarrow> Inl e
         | Inr cred \<Rightarrow>
             Inr (Some \<lparr>challenge_id = ''c-1'', account_id = ''0.0.6978377'',
                        message_signed_plain_text = ''hello'', signature_map_base64 = cred,
                        sig_type = ''ed25519''\<rparr>))"
    and "authenticate_verify_body toy_crypto ''0.0.6978377'' PRIVATE_KEY_DER_HEX
          (Some hello_challenge) =
        (case buildAuthCredential toy_crypto ''ed25519'' PRIVATE_KEY_SEED ''hello'' of
           Inl e \<Rightarrow> Inl e
         | Inr cred \<Rightarrow>
             Inr (Some \<lparr>challenge_id = ''c-1'', account_id = ''0.0.6978377'',
                        message_signed_plain_text = ''hello'', signature_map_base64 = cred,
                        sig_type = ''ed25519''\<rparr>))"
    by auto
  then have hello: "authenticate_new_auth toy_crypto ''0.0.6978377'' PRIVATE_KEY_DER_HEX
          ''ed25519'' (Inr hello_challenge) = Inr (Some hello_verify_body)"
    "authenticate_verify_body toy_crypto ''0.0.6978377'' PRIVATE_KEY_DER_HEX
          (Some hello_challenge) = Inr (Some hello_verify_body)"
    unfolding c sum.case hello_verify_body_def by blast+
  let ?empty = "[''challenge_id'' \<mapsto> ''c-1'', ''message'' \<mapsto> [],
                 ''expires_at_utc'' \<mapsto> ''2025-01-01T00:00:00Z'']"
  have e3: "status_code empty_challenge = 200" by (simp add: empty_challenge_def)
  have e4: "json empty_challenge = Inr ?empty" by (simp add: empty_challenge_def)
  have e5: "?empty ''challenge_id'' = Some ''c-1''" by simp
  have e6: "?empty ''message'' = Some []" by simp
  have p: "public_bytes toy_crypto PRIVATE_KEY_SEED = Inr (rev PRIVATE_KEY_SEED)"
    by (simp add: toy_crypto_def)
  from k authenticate_end_to_end [OF e3 e4 e5 e6, of "''ed25519''" toy_crypto
      PRIVATE_KEY_DER_HEX PRIVATE_KEY_SEED "''0.0.6978377''"]
  have "authenticate_verify_body toy_crypto ''0.0.6978377'' PRIVATE_KEY_DER_HEX
          (Some empty_challenge) =
        (case public_bytes toy_crypto PRIVATE_KEY_SEED of
           Inl e \<Rightarrow> Inl e | Inr pub \<Rightarrow> Inr None)"
    by blast
  then have "authenticate_verify_body toy_crypto ''0.0.6978377'' PRIVATE_KEY_DER_HEX
          (Some empty_challenge) = Inr None"
    unfolding p sum.case .
  with hello k show ?thesis unfolding hello_verify_body_def by blast
qed

section \<open>Verification: decoding base64\<close>

lemma b64_index_table:
  "list_all (\<lambda>k. b64_index (b64_alphabet ! k) = Some (int k)) [0..<64]"
  by code_simp

lemma b64_index_char: "b64_index (b64_char i) = Some (i mod 64)"
proof -
  have "nat (i mod 64) \<in> set [0..<64]" by simp
  with b64_index_table have "b64_index (b64_alphabet ! nat (i mod 64)) = Some (int (nat (i mod 64)))"
    unfolding list_all_iff by blast
  then show ?thesis by (simp add: b64_char_def)
qed

lemma b64_char_not_pad: "b64_char i \<noteq> CHR ''=''"
proof
  assume "b64_char i = CHR ''=''"
  then have "b64_index (b64_char i) = b64_index (CHR ''='')" by simp
  then show False by (simp add: b64_index_char) (simp add: b64_index_def)
qed

lemma of_char_int_range: "0 \<le> (of_char c :: int) \<and> (of_char c :: int) < 256"
proof -
  have "(of_char c :: int) = int (of_char c)" by (simp only: of_nat_of_char)
  then show ?thesis by simp
qed


lemma sextets:
  fixes n :: int
  assumes "0 \<le> n" and "n < 16777216"
  shows "(n div 262144 mod 64) * 262144 + (n div 4096 mod 64) * 4096
           + (n div 64 mod 64) * 64 + n mod 64 = n"
proof -
  define q1 where "q1 = n div 64"
  define q2 where "q2 = q1 div 64"
  define q3 where "q3 = q2 div 64"
  define r0 where "r0 = n mod 64"
  define r1 where "r1 = q1 mod 64"
  define r2 where "r2 = q2 mod 64"
  have a: "n div 4096 = q2" by (simp add: q1_def q2_def zdiv_zmult2_eq)
  have b: "n div 262144 = q3" by (simp add: q1_def q2_def q3_def zdiv_zmult2_eq)
  have "0 \<le> q3" and "q3 < 64" using assms by (simp_all add: q1_def q2_def q3_def)
  then have e: "q3 mod 64 = q3" by simp
  have s0: "n = q1 * 64 + r0" unfolding q1_def r0_def by (rule div_mult_mod_eq [symmetric])
  have s1: "q1 = q2 * 64 + r1" unfolding q2_def r1_def by (rule div_mult_mod_eq [symmetric])
  have s2: "q2 = q3 * 64 + r2" unfolding q3_def r2_def by (rule div_mult_mod_eq [symmetric])
  have "q3 * 262144 + r2 * 4096 + r1 * 64 + r0 = n"
    using s0 s1 s2 by (simp add: algebra_simps)
  then show ?thesis
    unfolding a b e by (simp only: q1_def [symmetric] r0_def r1_def r2_def)
qed


lemma char_of_int_byte: "m mod 256 = (of_char c :: int) \<Longrightarrow> char_of m = c"
proof -
  assume "m mod 256 = (of_char c :: int)"
  then have "m mod 256 = (of_char c :: int) mod 256" by simp
  then have "char_of m = char_of (of_char c :: int)" by (simp only: char_of_quasi_inj)
  then show ?thesis by simp
qed

lemma group3:
  fixes x y z :: int
  assumes "0 \<le> x \<and> x < 256" and "0 \<le> y \<and> y < 256" and "0 \<le> z \<and> z < 256"
  defines "n \<equiv> x * 65536 + y * 256 + z"
  shows "(n div 262144 mod 64) * 262144 + (n div 4096 mod 64) * 4096
           + (n div 64 mod 64) * 64 + n mod 64 = n"
    and "n div 65536 mod 256 = x" and "n div 256 mod 256 = y" and "n mod 256 = z"
proof -
  have r: "0 \<le> n" "n < 16777216" using assms by (simp_all add: n_def)
  then show "(n div 262144 mod 64) * 262144 + (n div 4096 mod 64) * 4096
           + (n div 64 mod 64) * 64 + n mod 64 = n" by (rule sextets)
  have yz: "0 \<le> y * 256 + z" "y * 256 + z < 65536" using assms(2,3) by simp_all
  have "n = x * 65536 + (y * 256 + z)" by (simp add: n_def)
  then have "n div 65536 = x + (y * 256 + z) div 65536" by (simp only: div_mult_self3) 
  then have "n div 65536 = x" using yz by simp
  then show "n div 65536 mod 256 = x" using assms(1) by simp
  have "n = (x * 256 + y) * 256 + z" by (simp add: n_def algebra_simps)
  then have "n div 256 = x * 256 + y + z div 256" by (simp only: div_mult_self3)
  then have "n div 256 = x * 256 + y" using assms(3) by simp
  then show "n div 256 mod 256 = y" using assms(2) by simp
  have e: "n = (x * 256 + y) * 256 + z" by (simp add: n_def algebra_simps)
  have "n mod 256 = z mod 256" unfolding e by (rule mod_mult_self3)
  then show "n mod 256 = z" using assms(3) by simp
qed


lemma b64decode_group:
  "b64decode (b64_char p # b64_char q # b64_char r # b64_char t # rest) =
     (case b64decode rest of
        None \<Rightarrow> None
      | Some bs \<Rightarrow>
          Some (char_of ((p mod 64 * 262144 + q mod 64 * 4096 + r mod 64 * 64 + t mod 64) div 65536)
              # char_of ((p mod 64 * 262144 + q mod 64 * 4096 + r mod 64 * 64 + t mod 64) div 256)
              # char_of (p mod 64 * 262144 + q mod 64 * 4096 + r mod 64 * 64 + t mod 64)
              # bs))"
  by (simp add: b64_index_char b64_char_not_pad Let_def split: option.splits)

lemma b64decode_pad1:
  "b64decode [b64_char p, b64_char q, b64_char r, CHR ''=''] =
     Some [char_of ((p mod 64 * 262144 + q mod 64 * 4096 + r mod 64 * 64) div 65536),
           char_of ((p mod 64 * 262144 + q mod 64 * 4096 + r mod 64 * 64) div 256)]"
  by (simp add: b64_index_char b64_char_not_pad Let_def)

lemma b64decode_pad2:
  "b64decode [b64_char p, b64_char q, CHR ''='', CHR ''=''] =
     Some [char_of ((p mod 64 * 262144 + q mod 64 * 4096) div 65536)]"
  by (simp add: b64_index_char)

lemma b64decode_b64encode: "b64decode (b64encode xs) = Some xs"
proof (induction xs rule: b64encode.induct)
  case 1
  show ?case by simp
next
  case (2 a)
  define n where "n = (of_char a :: int) * 65536"
  have nn: "(of_char a :: int) * 65536 + 0 * 256 + 0 = n" by (simp add: n_def)
  have z: "0 \<le> (0::int) \<and> (0::int) < 256" by simp
  note g = group3 [OF of_char_int_range [of a] z z, unfolded nn]
  have enc: "b64encode [a] = [b64_char (n div 262144), b64_char (n div 4096), CHR ''='', CHR ''='']"
    by (simp only: b64encode.simps Let_def n_def)
  have m: "n mod 64 = 0" "n div 64 mod 64 = 0" by (simp_all add: n_def)
  have eq: "n div 262144 mod 64 * 262144 + n div 4096 mod 64 * 4096 = n"
    using g(1) by (simp only: m mult_zero_left add_0_right)
  have "char_of (n div 65536) = a"
    using g(2) by (intro char_of_int_byte) simp
  then show ?case unfolding enc b64decode_pad2 eq by simp
next
  case (3 a b)
  define n where "n = (of_char a :: int) * 65536 + of_char b * 256"
  have nn: "(of_char a :: int) * 65536 + of_char b * 256 + 0 = n" by (simp add: n_def)
  have z: "0 \<le> (0::int) \<and> (0::int) < 256" by simp
  note g = group3 [OF of_char_int_range [of a] of_char_int_range [of b] z, unfolded nn]
  have enc: "b64encode [a, b] =
             [b64_char (n div 262144), b64_char (n div 4096), b64_char (n div 64), CHR ''='']"
    by (simp only: b64encode.simps Let_def n_def)
  have m: "n mod 64 = 0" by (simp add: n_def)
  have eq: "n div 262144 mod 64 * 262144 + n div 4096 mod 64 * 4096 + n div 64 mod 64 * 64 = n"
    using g(1) by (simp only: m add_0_right)
  have "char_of (n div 65536) = a"
    using g(2) by (intro char_of_int_byte) simp
  moreover have "char_of (n div 256) = b"
    using g(3) by (intro char_of_int_byte) simp
  ultimately show ?case unfolding enc b64decode_pad1 eq by simp
next
  case (4 a b c rest)
  define n where "n = (of_char a :: int) * 65536 + of_char b * 256 + of_char c"
  note g = group3 [OF of_char_int_range [of a] of_char_int_range [of b]
      of_char_int_range [of c], folded n_def]
  have enc: "b64encode (a # b # c # rest) =
             b64_char (n div 262144) # b64_char (n div 4096) # b64_char (n div 64)
               # b64_char n # b64encode rest"
    by (simp only: b64encode.simps Let_def n_def append_Cons append_Nil)
  have "char_of (n div 65536) = a"
    using g(2) by (intro char_of_int_byte) simp
  moreover have "char_of (n div 256) = b"
    using g(3) by (intro char_of_int_byte) simp
  moreover have "char_of n = c"
    using g(4) by (intro char_of_int_byte) simp
  ultimately show ?case unfolding enc b64decode_group g(1) using "4.IH" by simp
qed

section \<open>Verification: the verification request\<close>

lemma carries_signature_credential:
  "carries_signature
     \<lparr>challenge_id = cid, account_id = acct, message_signed_plain_text = msg,
      signature_map_base64 = b64encode (signature_map_spec (CHR 0x1A) pub signature),
      sig_type = st\<rparr> pub signature"
proof -
  have t: "(of_char (CHR 0x1A) :: int) AND 0x07 = 2" by simp
  have f: "drop_bit 3 (of_char (CHR 0x1A) :: int) = 3" by (simp add: drop_bit_eq_div)
  have "decode_signature_map (signature_map_spec (CHR 0x1A) pub signature) =
        Some (pub, 3, signature)"
    using decode_signature_map_spec [OF t, of pub signature] by (simp only: f)
  then show ?thesis by (simp add: carries_signature_def b64decode_b64encode)
qed

lemma wrapMessage_differs: "wrapMessage m \<noteq> m"
proof
  assume "wrapMessage m = m"
  then have "length (wrapMessage m) = length m" by simp
  then show False by (simp add: wrapMessage_def)
qed

lemma authenticate_verify_body_Some:
  assumes "authenticate_verify_body lib acct hex (Some res) = Inr (Some body)"
    and "json res = Inr data" and "data ''message'' = Some msg"
  shows "\<exists>key pub signature. public_bytes lib key = Inr pub
           \<and> ed_sign lib key (wrapMessage msg) = Inr signature
           \<and> body = \<lparr>challenge_id = the (data ''challenge_id''), account_id = acct,
                      message_signed_plain_text = msg,
                      signature_map_base64 = b64encode (signature_map_spec (CHR 0x1A) pub signature),
                      sig_type = ''ed25519''\<rparr>"
  using assms unfolding authenticate_verify_body_def
  by (auto simp: Let_def build_hip820_wrapMessage build_signature_map_spec decode_utf8_b64encode
      split: sum.splits option.splits if_splits)

lemma authenticate_deposit_Some:
  assumes "authenticate_deposit lib acct hex (Inr res) = Inr (Some body)"
    and "json res = Inr data" and "data ''message'' = Some msg"
  shows "\<exists>key pub signature. public_bytes lib key = Inr pub
           \<and> ed_sign lib key (wrapMessage msg) = Inr signature
           \<and> body = \<lparr>challenge_id = the (data ''challenge_id''), account_id = acct,
                      message_signed_plain_text = msg,
                      signature_map_base64 = b64encode (signature_map_spec (CHR 0x1A) pub signature),
                      sig_type = ''ed25519''\<rparr>"
  using assms unfolding authenticate_deposit_def
  by (auto simp: Let_def build_hip820_wrapMessage build_signature_map_spec decode_utf8_b64encode
      split: sum.splits option.splits if_splits)


text \<open>
  Claim C5.  In every verification request that \<open>authenticate\<close> builds
  (order_lifecycle_3.py, ex_deposit.py), \<open>message_signed_plain_text\<close> is the challenge
  message as received, unwrapped, while the credential in \<open>signature_map_base64\<close>
  decodes to a public key and a signature made over the HIP-820 wrapping of that same
  message; the wrapped bytes are never the message itself.
\<close>

theorem verify_body_plain_and_wrapped:
  assumes "json res = Inr data" and "data ''message'' = Some msg"
  shows "(authenticate_verify_body lib acct hex (Some res) = Inr (Some body) \<longrightarrow>
            message_signed_plain_text body = msg
          \<and> (\<exists>key pub signature. public_bytes lib key = Inr pub
                \<and> ed_sign lib key (wrapMessage (message_signed_plain_text body)) = Inr signature
                \<and> carries_signature body pub signature))
       \<and> (authenticate_deposit lib acct hex (Inr res) = Inr (Some body) \<longrightarrow>
            message_signed_plain_text body = msg
          \<and> (\<exists>key pub signature. public_bytes lib key = Inr pub
                \<and> ed_sign lib key (wrapMessage (message_signed_plain_text body)) = Inr signature
                \<and> carries_signature body pub signature))
       \<and> wrapMessage msg \<noteq> msg"
proof -
  have "message_signed_plain_text body = msg
        \<and> (\<exists>key pub signature. public_bytes lib key = Inr pub
              \<and> ed_sign lib key (wrapMessage (message_signed_plain_text body)) = Inr signature
              \<and> carries_signature body pub signature)"
    if "\<exists>key pub signature. public_bytes lib key = Inr pub
           \<and> ed_sign lib key (wrapMessage msg) = Inr signature
           \<and> body = \<lparr>challenge_id = the (data ''challenge_id''), account_id = acct,
                      message_signed_plain_text = msg,
                      signature_map_base64 = b64encode (signature_map_spec (CHR 0x1A) pub signature),
                      sig_type = ''ed25519''\<rparr>"
  proof -
    from that obtain key pub signature where
      p: "public_bytes lib key = Inr pub" and
      s: "ed_sign lib key (wrapMessage msg) = Inr signature" and
      b: "body = \<lparr>challenge_id = the (data ''challenge_id''), account_id = acct,
                  message_signed_plain_text = msg,
                  signature_map_base64 = b64encode (signature_map_spec (CHR 0x1A) pub signature),
                  sig_type = ''ed25519''\<rparr>"
      by blast
    have m: "message_signed_plain_text body = msg" by (simp add: b)
    have "carries_signature body pub signature"
      unfolding b by (rule carries_signature_credential)
    with p s m show ?thesis by auto
  qed
  with authenticate_verify_body_Some [OF _ assms, of lib acct hex body]
    authenticate_deposit_Some [OF _ assms, of lib acct hex body]
    wrapMessage_differs [of msg]
  show ?thesis by blast
qed

lemma hello_verify_body_run:
  "authenticate_verify_body toy_crypto ''0.0.6978377'' PRIVATE_KEY_DER_HEX (Some hello_challenge)
     = Inr (Some hello_verify_body)"
  by code_simp

lemma hello_deposit_run:
  "authenticate_deposit toy_crypto ''0.0.6978377'' PRIVATE_KEY_DER_HEX (Inr hello_challenge)
     = Inr (Some hello_verify_body)"
  by code_simp

theorem verify_body_plain_and_wrapped_witness:
  "authenticate_verify_body toy_crypto ''0.0.6978377'' PRIVATE_KEY_DER_HEX (Some hello_challenge)
     = Inr (Some hello_verify_body)
   \<and> authenticate_deposit toy_crypto ''0.0.6978377'' PRIVATE_KEY_DER_HEX (Inr hello_challenge)
     = Inr (Some hello_verify_body)
   \<and> message_signed_plain_text hello_verify_body = ''hello''
   \<and> (\<exists>key pub signature. public_bytes toy_crypto key = Inr pub
         \<and> ed_sign toy_crypto key (wrapMessage (message_signed_plain_text hello_verify_body))
             = Inr signature
         \<and> carries_signature hello_verify_body pub signature)
   \<and> wrapMessage ''hello'' \<noteq> ''hello''"
proof -
  let ?data = "[''challenge_id'' \<mapsto> ''c-1'', ''message'' \<mapsto> ''hello'',
                ''expires_at_utc'' \<mapsto> ''2025-01-01T00:00:00Z'']"
  have h1: "json hello_challenge = Inr ?data" by (simp add: hello_challenge_def)
  have h2: "?data ''message'' = Some ''hello''" by simp
  from verify_body_plain_and_wrapped [OF h1 h2, of toy_crypto "''0.0.6978377''"
      PRIVATE_KEY_DER_HEX hello_verify_body] hello_verify_body_run hello_deposit_run
  show ?thesis by blast
qed

section \<open>Verification: key loading\<close>

lemma fromhex_step:
  obtains
    (space) "is_space c" and "fromhex (c # cs) = fromhex cs"
  | (bad) "\<not> is_space c" and "fromhex (c # cs) = Inl ValueError"
      and "hex_digit c = None \<or> cs = [] \<or> (\<exists>d ds. cs = d # ds \<and> hex_digit d = None)"
  | (pair) hi d ds lo where "\<not> is_space c" and "hex_digit c = Some hi" and "cs = d # ds"
      and "hex_digit d = Some lo"
      and "fromhex (c # cs) =
           (case fromhex ds of Inl x \<Rightarrow> Inl x | Inr r \<Rightarrow> Inr (char_of (16 * hi + lo) # r))"
proof (cases "is_space c")
  case True
  then show ?thesis using space by simp
next
  case ns: False
  show ?thesis
  proof (cases "hex_digit c")
    case None
    then show ?thesis using ns bad by simp
  next
    case (Some hi)
    show ?thesis
    proof (cases cs)
      case Nil
      then show ?thesis using ns Some bad by simp
    next
      case (Cons d ds)
      show ?thesis
      proof (cases "hex_digit d")
        case None
        then show ?thesis using ns Some Cons bad by simp
      next
        case lo: (Some lo)
        show ?thesis using ns Some Cons lo by (intro pair [of hi d ds lo]) simp_all
      qed
    qed
  qed
qed

declare fromhex.simps(2) [simp del]

lemma fromhex_error: "fromhex s = Inl e \<Longrightarrow> e = ValueError"
proof (induction s arbitrary: e rule: fromhex.induct)
  case 1
  then show ?case by simp
next
  case (2 c cs)
  show ?case
  proof (cases c cs rule: fromhex_step)
    case space
    with 2 show ?thesis by simp
  next
    case bad
    with 2 show ?thesis by simp
  next
    case (pair hi d ds lo)
    with 2 show ?thesis by (auto split: sum.splits)
  qed
qed

lemma hex_digit_not_space: "hex_digit c = Some h \<Longrightarrow> \<not> is_space c"
  by (auto simp: hex_digit_def is_space_def Let_def split: if_splits)

lemma fromhex_not_hex:
  "\<not> list_all (\<lambda>c. is_space c \<or> hex_digit c \<noteq> None) s \<Longrightarrow> fromhex s = Inl ValueError"
proof (induction s rule: fromhex.induct)
  case 1
  then show ?case by simp
next
  case (2 c cs)
  show ?case
  proof (cases c cs rule: fromhex_step)
    case space
    with 2 show ?thesis by simp
  next
    case bad
    then show ?thesis by simp
  next
    case (pair hi d ds lo)
    with "2.prems" have "\<not> list_all (\<lambda>c. is_space c \<or> hex_digit c \<noteq> None) ds" by simp
    with pair "2.IH"(2) [of hi d ds lo] have "fromhex ds = Inl ValueError" by simp
    with pair show ?thesis by simp
  qed
qed

lemma fromhex_digits:
  "fromhex s = Inr bs \<Longrightarrow> length (filter (\<lambda>c. \<not> is_space c) s) = 2 * length bs"
proof (induction s arbitrary: bs rule: fromhex.induct)
  case 1
  then show ?case by simp
next
  case (2 c cs)
  show ?case
  proof (cases c cs rule: fromhex_step)
    case space
    with 2 show ?thesis by simp
  next
    case bad
    with 2 show ?thesis by simp
  next
    case (pair hi d ds lo)
    with "2.prems" obtain r where r: "fromhex ds = Inr r" "bs = char_of (16 * hi + lo) # r"
      by (auto split: sum.splits)
    with pair "2.IH"(2) [of hi d ds lo r]
    have "length (filter (\<lambda>c. \<not> is_space c) ds) = 2 * length r" by simp
    with pair r show ?thesis by (simp add: hex_digit_not_space)
  qed
qed


text \<open>
  Claim C8 as first stated asks for a \<open>KeyLoadError\<close>.  A malformed key string makes
  \<open>bytes.fromhex\<close> raise \<open>ValueError\<close>: new_auth.py lets it propagate, and
  \<open>authenticate\<close> of order_lifecycle_3.py catches it and returns \<open>None\<close>.
\<close>

theorem key_load_counterexample:
  "load_ed25519_private_key toy_crypto ''zz'' = Inl ValueError
   \<and> authenticate_verify_body toy_crypto ''0.0.6978377'' ''zz'' (Some hello_challenge)
       = Inl ValueError
   \<and> authenticate toy_crypto ''0.0.6978377'' ''zz'' (Some hello_challenge) no_response = None"
  by code_simp

text \<open>
  Claim C8, as amended.  A key string that is malformed as hexadecimal (an odd number
  of digits, or a character that is neither a hexadecimal digit nor whitespace) fails
  with \<open>ValueError\<close> from \<open>bytes.fromhex\<close>.  For well-formed hexadecimal,
  \<open>load_ed25519_private_key\<close> returns exactly what the library's DER loader returns on
  the decoded bytes, its exception unchanged.  Either failure leaves
  \<open>authenticate\<close> of order_lifecycle_3.py returning \<open>None\<close>.
\<close>

theorem key_load_errors:
  "(fromhex der_hex = Inl e \<longrightarrow>
      e = ValueError
    \<and> load_ed25519_private_key lib der_hex = Inl ValueError
    \<and> authenticate_verify_body lib acct der_hex chal = Inl ValueError
    \<and> authenticate lib acct der_hex chal verify_post = None)
   \<and> (odd (length (filter (\<lambda>c. \<not> is_space c) der_hex))
        \<or> \<not> list_all (\<lambda>c. is_space c \<or> hex_digit c \<noteq> None) der_hex \<longrightarrow>
      fromhex der_hex = Inl ValueError)
   \<and> (fromhex der_hex = Inr der \<longrightarrow>
      load_ed25519_private_key lib der_hex = load_der_private_key lib der
    \<and> (\<forall>e'. load_der_private_key lib der = Inl e' \<longrightarrow>
           authenticate_verify_body lib acct der_hex chal = Inl e'
         \<and> authenticate lib acct der_hex chal verify_post = None))"
proof -
  have a: "e = ValueError
        \<and> load_ed25519_private_key lib der_hex = Inl ValueError
        \<and> authenticate_verify_body lib acct der_hex chal = Inl ValueError
        \<and> authenticate lib acct der_hex chal verify_post = None"
    if "fromhex der_hex = Inl e"
  proof -
    from that have "e = ValueError" by (rule fromhex_error)
    with that show ?thesis
      by (simp add: load_ed25519_private_key_def authenticate_verify_body_def authenticate_def)
  qed
  have b: "fromhex der_hex = Inl ValueError"
    if "odd (length (filter (\<lambda>c. \<not> is_space c) der_hex))
        \<or> \<not> list_all (\<lambda>c. is_space c \<or> hex_digit c \<noteq> None) der_hex"
  proof (cases "fromhex der_hex")
    case (Inl e)
    then show ?thesis using fromhex_error by blast
  next
    case (Inr bs)
    then have "even (length (filter (\<lambda>c. \<not> is_space c) der_hex))"
      by (simp add: fromhex_digits)
    with that have "\<not> list_all (\<lambda>c. is_space c \<or> hex_digit c \<noteq> None) der_hex" by blast
    then show ?thesis by (rule fromhex_not_hex)
  qed
  have c: "load_ed25519_private_key lib der_hex = load_der_private_key lib der
        \<and> (\<forall>e'. load_der_private_key lib der = Inl e' \<longrightarrow>
               authenticate_verify_body lib acct der_hex chal = Inl e'
             \<and> authenticate lib acct der_hex chal verify_post = None)"
    if "fromhex der_hex = Inr der"
    using that
    by (simp add: load_ed25519_private_key_def authenticate_verify_body_def authenticate_def)
  from a b c show ?thesis by blast
qed

theorem key_load_errors_witness:
  "fromhex ''302'' = Inl ValueError
   \<and> odd (length (filter (\<lambda>c. \<not> is_space c) ''302''))
   \<and> load_ed25519_private_key toy_crypto ''302'' = Inl ValueError
   \<and> authenticate toy_crypto ''0.0.6978377'' ''302'' (Some hello_challenge) no_response = None
   \<and> fromhex ''3020'' = Inr [CHR 0x30, CHR 0x20]
   \<and> load_der_private_key toy_crypto [CHR 0x30, CHR 0x20] = Inl ValueError
   \<and> load_ed25519_private_key toy_crypto ''3020'' = Inl ValueError
   \<and> authenticate toy_crypto ''0.0.6978377'' ''3020'' (Some hello_challenge) no_response = None"
proof -
  have o: "odd (length (filter (\<lambda>c. \<not> is_space c) ''302''))" by code_simp
  have h: "fromhex ''3020'' = Inr [CHR 0x30, CHR 0x20]" by code_simp
  have l: "load_der_private_key toy_crypto [CHR 0x30, CHR 0x20] = Inl ValueError"
    by (simp add: toy_crypto_def)
  from o key_load_errors [of "''302''" ValueError toy_crypto "''0.0.6978377''"
      "Some hello_challenge" no_response]
  have "fromhex ''302'' = Inl ValueError
        \<and> load_ed25519_private_key toy_crypto ''302'' = Inl ValueError
        \<and> authenticate toy_crypto ''0.0.6978377'' ''302'' (Some hello_challenge) no_response = None"
    by blast
  moreover from h l key_load_errors [of "''3020''" _ toy_crypto "''0.0.6978377''"
      "Some hello_challenge" no_response "[CHR 0x30, CHR 0x20]"]
  have "load_ed25519_private_key toy_crypto ''3020'' = Inl ValueError
        \<and> authenticate toy_crypto ''0.0.6978377'' ''3020'' (Some hello_challenge) no_response = None"
    by simp
  ultimately show ?thesis using o h l by blast
qed

end
